theory Spec2Isabelle
  imports Complex_Main "HOL-Library.Word" "HOL-Library.Log_Nat" "HOL-Library.Code_Target_Numeral"
begin

section \<open>JavaScript values\<close>

subsection \<open>Strings\<close>

text \<open>
  A JavaScript string is a sequence of 16-bit code units. The text constants of the
  program (keys, names of tools, names of statuses) are ASCII and are written as HOL
  strings; \<open>ascii\<close> gives the JavaScript string of such a constant.
\<close>

type_synonym jstring = "16 word list"

definition ascii :: "string \<Rightarrow> jstring" where
  "ascii s = map (\<lambda>c. of_nat (of_char c)) s"

text \<open>
  The white space and the line terminators of ECMAScript, which \<open>trim\<close> strips: tab to
  carriage return, space, U+00A0, U+1680, U+2000 to U+200A, U+2028, U+2029, U+202F, U+205F,
  U+3000 and U+FEFF.
\<close>

definition is_space :: "16 word \<Rightarrow> bool" where
  "is_space c =
     (unat c \<in> set [0x09, 0x0A, 0x0B, 0x0C, 0x0D, 0x20, 0xA0, 0x1680, 0x2028, 0x2029, 0x202F,
                      0x205F, 0x3000, 0xFEFF]
      \<or> 0x2000 \<le> unat c \<and> unat c \<le> 0x200A)"

text \<open>\<open>String.prototype.trim\<close>\<close>

definition trim :: "jstring \<Rightarrow> jstring" where
  "trim s = rev (dropWhile is_space (rev (dropWhile is_space s)))"

text \<open>
  A string handed to the database driver is encoded as UTF-8 and decoded again when it is
  read. A surrogate code unit that is not part of a pair has no encoding and is replaced
  by U+FFFD; every other code unit comes back as it went. \<open>utf8\<close> is the string read back.
\<close>

definition is_high :: "16 word \<Rightarrow> bool" where
  "is_high u = (0xD800 \<le> unat u \<and> unat u \<le> 0xDBFF)"

definition is_low :: "16 word \<Rightarrow> bool" where
  "is_low u = (0xDC00 \<le> unat u \<and> unat u \<le> 0xDFFF)"

fun utf8 :: "jstring \<Rightarrow> jstring" where
  "utf8 [] = []"
| "utf8 [u] = (if is_high u \<or> is_low u then [0xFFFD] else [u])"
| "utf8 (u # v # rest) =
     (if is_high u \<and> is_low v then u # v # utf8 rest
      else if is_high u \<or> is_low u then 0xFFFD # utf8 (v # rest)
      else u # utf8 (v # rest))"

subsection \<open>Numbers\<close>

text \<open>
  A JavaScript number is an IEEE 754 double, here the rational it denotes (the program
  meets neither an infinity nor a NaN). \<open>to_double\<close> rounds a rational to the nearest
  number with a significand of 53 bits, a tie going to the even significand: the nearest
  double, for a magnitude in the normal range of the doubles, where all results of the
  program lie. An operation of JavaScript is the exact operation followed by this
  rounding.
\<close>

definition round_half_even :: "rat \<Rightarrow> int" where
  "round_half_even x =
     (let f = \<lfloor>x\<rfloor>; r = x - of_int f
      in if r < 1 / 2 then f else if 1 / 2 < r then f + 1 else if even f then f else f + 1)"

text \<open>The same rounding of a quotient of integers, by division with remainder.\<close>

definition round_div :: "int \<Rightarrow> int \<Rightarrow> int" where
  "round_div a b = (let f = a div b; r = 2 * (a mod b) in
     if r < b then f else if b < r then f + 1 else if even f then f else f + 1)"

text \<open>The integer \<open>k\<close> with \<open>2 powi k \<le> x < 2 powi (k + 1)\<close>, for a positive \<open>x\<close>.\<close>

definition ilog2 :: "rat \<Rightarrow> int" where
  "ilog2 x =
     (case quotient_of x of
        (p, q) \<Rightarrow> let k = bitlen p - bitlen q in if 2 powi k \<le> x then k else k - 1)"

definition to_double :: "rat \<Rightarrow> rat" where
  "to_double x =
     (if x = 0 then 0
      else let e = ilog2 \<bar>x\<bar> - 52
           in sgn x * of_int (round_half_even (\<bar>x\<bar> / 2 powi e)) * 2 powi e)"

definition js_divide :: "rat \<Rightarrow> rat \<Rightarrow> rat" where
  "js_divide x y = to_double (x / y)"

definition js_times :: "rat \<Rightarrow> rat \<Rightarrow> rat" where
  "js_times x y = to_double (x * y)"

text \<open>\<open>Math.round\<close>: the nearest integer, a tie going up.\<close>

definition Math_round :: "rat \<Rightarrow> int" where
  "Math_round x = \<lfloor>x + 1 / 2\<rfloor>"

definition isInteger :: "rat \<Rightarrow> bool" where
  "isInteger n = (of_int \<lfloor>n\<rfloor> = n)"

subsection \<open>Values\<close>

text \<open>
  A value of the program: a decoded JSON document or, as \<open>JFun\<close>, a built-in function
  found on a prototype. A value that may also be \<open>undefined\<close> is a \<open>json option\<close>, with
  \<open>None\<close> for \<open>undefined\<close>. An object lists its entries in the order of the JSON text;
  a later entry replaces an earlier one of the same key, as \<open>JSON.parse\<close> has it.
\<close>

datatype json =
    JNull
  | JBool bool
  | JNum rat
  | JStr jstring
  | JArr "json list"
  | JObj "(jstring \<times> json) list"
  | JFun

text \<open>
  A failed statement of the store, by the condition that SQLite reports: no rowid left,
  a NOT NULL constraint, by its column, a CHECK constraint, by its column, or the foreign
  key. The text of the message is SQLite's.
\<close>

datatype sqlite_failure =
    DatabaseFull
  | NotNullFailed string
  | CheckFailed string
  | ForeignKeyFailed

text \<open>Every \<open>throw\<close> of the program, by the message it carries.\<close>

datatype error =
    TypeError
  | SyntaxError
  | UnknownMethod "json option"
  | UnknownTool "json option"
  | InvalidStatus json
  | InvalidPriority json
  | InvalidId string
  | RequiredString string
  | MustBeString string
  | ProjectNotFound nat
  | TaskNotFound nat
  | NoValidFields
  | SqliteError sqlite_failure

text \<open>
  \<open>value.key\<close> on a value that is neither \<open>null\<close> nor \<open>undefined\<close>, for the keys that
  the program reads: \<open>method\<close>, \<open>params\<close>, \<open>id\<close>, \<open>name\<close>, \<open>arguments\<close> and the names of
  the arguments of the tools. An object has the entries of its JSON text. Of the other
  values only a string has one of these keys, \<open>search\<close>, the method of
  \<open>String.prototype\<close>. The program never reads a key off a function.
\<close>

fun js_get :: "json \<Rightarrow> string \<Rightarrow> json option" where
  "js_get (JObj kvs) k = map_of (rev kvs) (ascii k)"
| "js_get (JStr s) k = (if k = ''search'' then Some JFun else None)"
| "js_get _ k = None"

text \<open>
  The operand of a destructuring \<open>const { a, b } = value\<close>: a \<open>TypeError\<close> is thrown on
  \<open>null\<close> and on \<open>undefined\<close>, every other value is read with \<open>js_get\<close>.
\<close>

fun destructure :: "json option \<Rightarrow> error + json" where
  "destructure None = Inl TypeError"
| "destructure (Some JNull) = Inl TypeError"
| "destructure (Some v) = Inr v"

fun truthy :: "json option \<Rightarrow> bool" where
  "truthy None = False"
| "truthy (Some JNull) = False"
| "truthy (Some (JBool b)) = b"
| "truthy (Some (JNum n)) = (n \<noteq> 0)"
| "truthy (Some (JStr s)) = (s \<noteq> [])"
| "truthy (Some (JArr _)) = True"
| "truthy (Some (JObj _)) = True"
| "truthy (Some JFun) = True"

text \<open>\<open>names.includes(value)\<close> on an array of strings: strict equality with one of them.\<close>

fun js_includes :: "string list \<Rightarrow> json option \<Rightarrow> bool" where
  "js_includes names (Some (JStr s)) = (s \<in> set (map ascii names))"
| "js_includes names _ = False"

text \<open>
  Whether a template literal can convert the value to a string. The conversion of an
  object calls its \<open>toString\<close>; an own property of that name, which in a decoded document
  is never a function, hides the method of the prototype, and the conversion throws a
  \<open>TypeError\<close>. An array converts its elements, other than \<open>null\<close>, and joins them.
\<close>

fun stringifiable :: "json \<Rightarrow> bool" where
  "stringifiable (JObj kvs) = (ascii ''toString'' \<notin> set (map fst kvs))"
| "stringifiable (JArr xs) = list_all stringifiable xs"
| "stringifiable v = True"

definition stringifiable_opt :: "json option \<Rightarrow> bool" where
  "stringifiable_opt v = (case v of None \<Rightarrow> True | Some x \<Rightarrow> stringifiable x)"

section \<open>The store: schema.sql and database.js\<close>

text \<open>
  The two tables of the schema, a row per record, by ascending rowid. A TEXT column holds
  the string read back from it, a nullable one a \<open>jstring option\<close> (\<open>None\<close> is NULL);
  \<open>t_due_date\<close> is the text bound to the column \<open>due_date\<close>. The timestamps are readings
  of the clock, an argument \<open>now\<close> of every writing operation that stands for
  \<open>CURRENT_TIMESTAMP\<close>. The two counters are the \<open>sqlite_sequence\<close> entries that
  \<open>AUTOINCREMENT\<close> keeps: the largest rowid ever given out in each table. A table has
  fewer than \<open>2 ^ 53\<close> rows, so a count of rows is the same number in JavaScript, and a
  text is shorter than the \<open>10 ^ 9\<close> bytes that SQLite takes.
\<close>

record project =
  p_id :: nat
  p_name :: jstring
  p_client :: "jstring option"
  p_description :: "jstring option"
  p_created_at :: nat
  p_updated_at :: nat

record task =
  t_id :: nat
  t_project_id :: nat
  t_description :: jstring
  t_priority :: "jstring option"
  t_status :: "jstring option"
  t_category :: "jstring option"
  t_assignee :: "jstring option"
  t_due_date :: "jstring option"
  t_notes :: "jstring option"
  t_created_at :: nat
  t_updated_at :: nat

record database =
  projects :: "project list"
  tasks :: "task list"
  projects_seq :: nat
  tasks_seq :: nat


text \<open>The lists of the two CHECK constraints of table \<open>tasks\<close>.\<close>

definition schema_priorities :: "string list" where
  "schema_priorities = [''low'', ''medium'', ''high'', ''critical'']"

definition schema_statuses :: "string list" where
  "schema_statuses =
     [''pending'', ''in-progress'', ''developed'', ''tested'', ''deployed'', ''blocked'']"

text \<open>\<open>CHECK(column IN (...))\<close>: only a false result fails, and NULL is not false.\<close>

definition check_in :: "string list \<Rightarrow> jstring option \<Rightarrow> bool" where
  "check_in names v = (case v of None \<Rightarrow> True | Some s \<Rightarrow> s \<in> set (map ascii names))"

text \<open>
  \<open>INTEGER PRIMARY KEY AUTOINCREMENT\<close>: one more than every rowid ever used. A rowid is
  a signed 64-bit integer, and the INSERT fails once the largest one has been used.
\<close>

definition next_rowid :: "nat \<Rightarrow> nat list \<Rightarrow> nat" where
  "next_rowid seq ids = Suc (fold max ids seq)"

definition max_rowid :: nat where
  "max_rowid = 9223372036854775807"

text \<open>\<open>this.lastID\<close>: the rowid of the inserted row, as a JavaScript number.\<close>

definition lastID :: "nat \<Rightarrow> nat" where
  "lastID rowid = nat \<lfloor>to_double (of_nat rowid)\<rfloor>"

text \<open>A JavaScript condition \<open>if (text)\<close> on a string or \<open>null\<close>.\<close>

definition present :: "jstring option \<Rightarrow> bool" where
  "present v = (case v of None \<Rightarrow> False | Some s \<Rightarrow> s \<noteq> [])"

text \<open>\<open>UPDATE projects SET updated_at = CURRENT_TIMESTAMP WHERE id = ?\<close>\<close>

definition touch_project :: "nat \<Rightarrow> nat \<Rightarrow> project list \<Rightarrow> project list" where
  "touch_project now pid ps =
     map (\<lambda>p. if p_id p = pid then p\<lparr>p_updated_at := now\<rparr> else p) ps"

text \<open>
  An UPDATE statement: every row that the WHERE clause selects is rewritten, and one row
  that breaks a constraint fails the whole statement, which then changes nothing.
\<close>

primrec update_where :: "('r \<Rightarrow> bool) \<Rightarrow> ('r \<Rightarrow> error + 'r) \<Rightarrow> 'r list \<Rightarrow> error + 'r list" where
  "update_where P f [] = Inr []"
| "update_where P f (r # rs) =
     (case (if P r then f r else Inr r) of
        Inl e \<Rightarrow> Inl e
      | Inr r' \<Rightarrow> (case update_where P f rs of Inl e \<Rightarrow> Inl e | Inr rs' \<Rightarrow> Inr (r' # rs')))"

text \<open>
  The SET clause of an UPDATE comes from the entries of an object: it assigns no column
  twice. SQLite computes the new row and then checks the constraints of the assigned
  columns, the NOT NULL constraints before the CHECK constraints, each kind in the order of
  the columns in the table.
\<close>

definition assigned :: "string \<Rightarrow> (jstring \<times> jstring option) list \<Rightarrow> bool" where
  "assigned k setClause = (ascii k \<in> set (map fst setClause))"

definition assigned_null :: "string \<Rightarrow> (jstring \<times> jstring option) list \<Rightarrow> bool" where
  "assigned_null k setClause = ((ascii k, None) \<in> set setClause)"

subsection \<open>Projects\<close>

text \<open>
  \<open>createProject\<close>: the INSERT takes the next rowid, checks the NOT NULL constraint and
  stores the three texts; the function returns \<open>lastID\<close>.
\<close>

definition createProject ::
  "database \<Rightarrow> nat \<Rightarrow> jstring option \<Rightarrow> jstring option \<Rightarrow> jstring option \<Rightarrow> (error + nat) \<times> database" where
  "createProject db now name client description =
     (let pid = next_rowid (projects_seq db) (map p_id (projects db)) in
      if max_rowid < pid then (Inl (SqliteError DatabaseFull), db)
      else
        (case name of
           None \<Rightarrow> (Inl (SqliteError (NotNullFailed ''projects.name'')), db)
         | Some n \<Rightarrow>
             let row = \<lparr>p_id = pid, p_name = utf8 n, p_client = map_option utf8 client,
                        p_description = map_option utf8 description,
                        p_created_at = now, p_updated_at = now\<rparr>
             in (Inr (lastID pid), db\<lparr>projects := projects db @ [row], projects_seq := pid\<rparr>)))"

definition getProject :: "database \<Rightarrow> nat \<Rightarrow> project option" where
  "getProject db pid = find (\<lambda>p. p_id p = pid) (projects db)"

definition project_allowedFields :: "jstring list" where
  "project_allowedFields = map ascii [''name'', ''client'', ''description'']"

text \<open>One assignment, to a row that then passes the NOT NULL constraint.\<close>

definition assign_project :: "jstring \<times> jstring option \<Rightarrow> project \<Rightarrow> project" where
  "assign_project a p =
     (if fst a = ascii ''name'' then (case snd a of None \<Rightarrow> p | Some n \<Rightarrow> p\<lparr>p_name := utf8 n\<rparr>)
      else if fst a = ascii ''client'' then p\<lparr>p_client := map_option utf8 (snd a)\<rparr>
      else if fst a = ascii ''description'' then p\<lparr>p_description := map_option utf8 (snd a)\<rparr>
      else p)"

definition set_project :: "(jstring \<times> jstring option) list \<Rightarrow> nat \<Rightarrow> project \<Rightarrow> error + project" where
  "set_project setClause now p =
     (if assigned_null ''name'' setClause then Inl (SqliteError (NotNullFailed ''projects.name''))
      else Inr ((fold assign_project setClause p)\<lparr>p_updated_at := now\<rparr>))"

definition updateProject ::
  "database \<Rightarrow> nat \<Rightarrow> nat \<Rightarrow> (jstring \<times> jstring option) list \<Rightarrow> (error + bool) \<times> database" where
  "updateProject db now pid updates =
     (let setClause = filter (\<lambda>a. fst a \<in> set project_allowedFields) updates in
      if length setClause = 0 then (Inl NoValidFields, db)
      else
        (case update_where (\<lambda>p. p_id p = pid) (set_project setClause now) (projects db) of
           Inl e \<Rightarrow> (Inl e, db)
         | Inr ps \<Rightarrow>
             (Inr (0 < length (filter (\<lambda>p. p_id p = pid) (projects db))), db\<lparr>projects := ps\<rparr>)))"

text \<open>
  \<open>DELETE FROM projects WHERE id = ?\<close>. The connection runs with
  \<open>PRAGMA foreign_keys = ON\<close> and \<open>tasks.project_id\<close> is declared
  \<open>REFERENCES projects(id) ON DELETE CASCADE\<close>, so the statement also deletes the tasks of
  every deleted project; \<open>changes\<close> counts the project rows only.
\<close>

definition deleteProject :: "database \<Rightarrow> nat \<Rightarrow> bool \<times> database" where
  "deleteProject db pid =
     (let changes = length (filter (\<lambda>p. p_id p = pid) (projects db));
          db' = (if 0 < changes
                 then db\<lparr>projects := filter (\<lambda>p. p_id p \<noteq> pid) (projects db),
                         tasks := filter (\<lambda>t. t_project_id t \<noteq> pid) (tasks db)\<rparr>
                 else db)
      in (0 < changes, db'))"

subsection \<open>Tasks\<close>

text \<open>
  \<open>addTask\<close>: the INSERT, then the UPDATE of the project's timestamp. The INSERT fails
  when the rowids are used up, on a NULL description, on a priority that the CHECK
  refuses, and on a \<open>project_id\<close> without its project (the foreign key); a failed INSERT
  rejects the promise, so nothing follows. The default \<open>'medium'\<close> of the parameter stands
  for an \<open>undefined\<close> argument only; the dispatcher, the only caller, always passes the
  priority. \<open>now\<close> is the reading of the clock at the UPDATE of the project; the INSERT
  before it may read the second before, which only the timestamps of the task row would
  show. The same holds of \<open>updateTask\<close>.
\<close>

definition addTask ::
  "database \<Rightarrow> nat \<Rightarrow> nat \<Rightarrow> jstring option \<Rightarrow> jstring option \<Rightarrow> jstring option \<Rightarrow> jstring option
     \<Rightarrow> jstring option \<Rightarrow> (error + nat) \<times> database" where
  "addTask db now projectId description priority category assignee dueDate =
     (let tid = next_rowid (tasks_seq db) (map t_id (tasks db)) in
      if max_rowid < tid then (Inl (SqliteError DatabaseFull), db)
      else
        (case description of
           None \<Rightarrow> (Inl (SqliteError (NotNullFailed ''tasks.description'')), db)
         | Some d \<Rightarrow>
             if \<not> check_in schema_priorities (map_option utf8 priority)
             then (Inl (SqliteError (CheckFailed ''priority'')), db)
             else if \<not> (\<exists>p \<in> set (projects db). p_id p = projectId)
             then (Inl (SqliteError ForeignKeyFailed), db)
             else
               let row = \<lparr>t_id = tid, t_project_id = projectId, t_description = utf8 d,
                          t_priority = map_option utf8 priority, t_status = Some (ascii ''pending''),
                          t_category = map_option utf8 category,
                          t_assignee = map_option utf8 assignee,
                          t_due_date = map_option utf8 dueDate, t_notes = None,
                          t_created_at = now, t_updated_at = now\<rparr>
               in (Inr (lastID tid), db\<lparr>tasks := tasks db @ [row], tasks_seq := tid,
                               projects := touch_project now projectId (projects db)\<rparr>)))"

definition task_allowedFields :: "jstring list" where
  "task_allowedFields =
     map ascii [''status'', ''notes'', ''priority'', ''category'', ''description'', ''assignee'',
                ''due_date'']"

definition assign_task :: "jstring \<times> jstring option \<Rightarrow> task \<Rightarrow> task" where
  "assign_task a t =
     (let v = map_option utf8 (snd a) in
      if fst a = ascii ''status'' then t\<lparr>t_status := v\<rparr>
      else if fst a = ascii ''notes'' then t\<lparr>t_notes := v\<rparr>
      else if fst a = ascii ''priority'' then t\<lparr>t_priority := v\<rparr>
      else if fst a = ascii ''category'' then t\<lparr>t_category := v\<rparr>
      else if fst a = ascii ''description'' then (case v of None \<Rightarrow> t | Some d \<Rightarrow> t\<lparr>t_description := d\<rparr>)
      else if fst a = ascii ''assignee'' then t\<lparr>t_assignee := v\<rparr>
      else if fst a = ascii ''due_date'' then t\<lparr>t_due_date := v\<rparr>
      else t)"

definition set_task :: "(jstring \<times> jstring option) list \<Rightarrow> nat \<Rightarrow> task \<Rightarrow> error + task" where
  "set_task setClause now t =
     (let t' = fold assign_task setClause t in
      if assigned_null ''description'' setClause
      then Inl (SqliteError (NotNullFailed ''tasks.description''))
      else if assigned ''priority'' setClause \<and> \<not> check_in schema_priorities (t_priority t')
      then Inl (SqliteError (CheckFailed ''priority''))
      else if assigned ''status'' setClause \<and> \<not> check_in schema_statuses (t_status t')
      then Inl (SqliteError (CheckFailed ''status''))
      else Inr (t'\<lparr>t_updated_at := now\<rparr>))"

text \<open>\<open>SELECT project_id FROM tasks WHERE id = ?\<close>, through \<open>get\<close>: the first row, if any.\<close>

definition task_project :: "task list \<Rightarrow> nat \<Rightarrow> nat option" where
  "task_project ts tid = map_option t_project_id (find (\<lambda>t. t_id t = tid) ts)"

definition updateTask ::
  "database \<Rightarrow> nat \<Rightarrow> nat \<Rightarrow> (jstring \<times> jstring option) list \<Rightarrow> (error + bool) \<times> database" where
  "updateTask db now tid updates =
     (let setClause = filter (\<lambda>a. fst a \<in> set task_allowedFields) updates in
      if length setClause = 0 then (Inl NoValidFields, db)
      else
        (case update_where (\<lambda>t. t_id t = tid) (set_task setClause now) (tasks db) of
           Inl e \<Rightarrow> (Inl e, db)
         | Inr ts \<Rightarrow>
             let changes = length (filter (\<lambda>t. t_id t = tid) (tasks db));
                 ps = (case task_project ts tid of
                         None \<Rightarrow> projects db
                       | Some pid \<Rightarrow> touch_project now pid (projects db))
             in (Inr (0 < changes), db\<lparr>tasks := ts, projects := ps\<rparr>)))"

definition deleteTask :: "database \<Rightarrow> nat \<Rightarrow> nat \<Rightarrow> bool \<times> database" where
  "deleteTask db now tid =
     (let task = task_project (tasks db) tid;
          changes = length (filter (\<lambda>t. t_id t = tid) (tasks db));
          ts = filter (\<lambda>t. t_id t \<noteq> tid) (tasks db);
          ps = (case task of
                  None \<Rightarrow> projects db
                | Some pid \<Rightarrow> if 0 < changes then touch_project now pid (projects db) else projects db)
      in (0 < changes, db\<lparr>tasks := ts, projects := ps\<rparr>))"

text \<open>ASCII case folding, as the LIKE operator of SQLite does it.\<close>

definition lower :: "16 word \<Rightarrow> 16 word" where
  "lower c = (if 65 \<le> unat c \<and> unat c \<le> 90 then c + 32 else c)"

text \<open>
  \<open>text LIKE pattern\<close>, on texts of the store: \<open>%\<close> matches any run of characters and
  \<open>_\<close> any single character, which is a surrogate pair or one other code unit.
\<close>

fun like :: "jstring \<Rightarrow> jstring \<Rightarrow> bool" where
  "like [] s = (s = [])"
| "like (p # ps) [] = (p = 0x25 \<and> like ps [])"
| "like (p # ps) [c] =
     (if p = 0x25 then like ps [c] \<or> like (p # ps) []
      else (p = 0x5F \<or> lower p = lower c) \<and> like ps [])"
| "like (p # ps) (c # d # cs) =
     (if p = 0x25 then like ps (c # d # cs) \<or> like (p # ps) (d # cs)
      else if p = 0x5F then (if is_high c \<and> is_low d then like ps cs else like ps (d # cs))
      else lower p = lower c \<and> like ps (d # cs))"

text \<open>The operator reads a pattern and a text up to the first character U+0000.\<close>

definition like_text :: "jstring \<Rightarrow> jstring \<Rightarrow> bool" where
  "like_text pat s = like (takeWhile (\<lambda>c. c \<noteq> 0) pat) (takeWhile (\<lambda>c. c \<noteq> 0) s)"

definition like_opt :: "jstring \<Rightarrow> jstring option \<Rightarrow> bool" where
  "like_opt pat v = (case v of None \<Rightarrow> False | Some s \<Rightarrow> like_text pat s)"

text \<open>
  The \<open>filters\<close> object of \<open>getTasks\<close>, by the six keys that the function reads. A
  filter applies when its value is truthy: a non-zero id, a non-empty string.
\<close>

record filters =
  f_project_id :: "nat option"
  f_status :: "jstring option"
  f_priority :: "jstring option"
  f_category :: "jstring option"
  f_assignee :: "jstring option"
  f_search :: "jstring option"

definition task_matches :: "filters \<Rightarrow> task \<Rightarrow> bool" where
  "task_matches f t =
     ((case f_project_id f of None \<Rightarrow> True | Some n \<Rightarrow> n = 0 \<or> t_project_id t = n)
      \<and> (present (f_status f) \<longrightarrow> t_status t = map_option utf8 (f_status f))
      \<and> (present (f_priority f) \<longrightarrow> t_priority t = map_option utf8 (f_priority f))
      \<and> (present (f_category f) \<longrightarrow> t_category t = map_option utf8 (f_category f))
      \<and> (present (f_assignee f) \<longrightarrow> t_assignee t = map_option utf8 (f_assignee f))
      \<and> (case f_search f of
            None \<Rightarrow> True
          | Some s \<Rightarrow> s = [] \<or>
              (let searchTerm = utf8 (0x25 # s @ [0x25])
               in like_text searchTerm (t_description t) \<or> like_opt searchTerm (t_notes t))))"

text \<open>
  \<open>ORDER BY created_at DESC\<close>: the newest first, rows of one timestamp by ascending
  rowid.
\<close>

definition getTasks :: "database \<Rightarrow> filters \<Rightarrow> task list" where
  "getTasks db f =
     sort_key (\<lambda>t. - int (t_created_at t)) (filter (task_matches f) (tasks db))"

record summary =
  total :: nat
  pending :: nat
  in_progress :: nat
  developed :: nat
  tested :: nat
  deployed :: nat
  blocked :: nat
  critical :: nat
  high :: nat
  medium :: nat
  low :: nat
  completion_percentage :: int
  progress_percentage :: int

text \<open>\<open>COUNT(CASE WHEN column = 'name' THEN 1 END)\<close> over the rows of one project.\<close>

definition count_where :: "(task \<Rightarrow> jstring option) \<Rightarrow> string \<Rightarrow> task list \<Rightarrow> nat" where
  "count_where col name ts = length (filter (\<lambda>t. col t = Some (ascii name)) ts)"

text \<open>
  \<open>getProjectSummary\<close>: the counts of the SELECT, then the two percentages,
  \<open>Math.round((summary.deployed / summary.total) * 100)\<close> and the like, in the
  arithmetic of doubles.
\<close>

definition getProjectSummary :: "database \<Rightarrow> nat \<Rightarrow> summary" where
  "getProjectSummary db projectId =
     (let rows = filter (\<lambda>t. t_project_id t = projectId) (tasks db);
          n = length rows;
          dev = count_where t_status ''developed'' rows;
          tst = count_where t_status ''tested'' rows;
          dep = count_where t_status ''deployed'' rows
      in \<lparr>total = n,
          pending = count_where t_status ''pending'' rows,
          in_progress = count_where t_status ''in-progress'' rows,
          developed = dev,
          tested = tst,
          deployed = dep,
          blocked = count_where t_status ''blocked'' rows,
          critical = count_where t_priority ''critical'' rows,
          high = count_where t_priority ''high'' rows,
          medium = count_where t_priority ''medium'' rows,
          low = count_where t_priority ''low'' rows,
          completion_percentage =
            (if 0 < n then Math_round (js_times (js_divide (of_nat dep) (of_nat n)) 100) else 0),
          progress_percentage =
            (if 0 < n
             then Math_round (js_times (js_divide (of_nat (dev + tst + dep)) (of_nat n)) 100)
             else 0)\<rparr>)"

text \<open>
  A row of \<open>getProjects\<close>: the project and the counts of its tasks, all of them and by
  status (the LEFT JOIN grouped by project). \<open>ORDER BY p.updated_at DESC\<close> lists the
  projects of one timestamp by ascending rowid.
\<close>

record project_counts =
  pc_project :: project
  total_tasks :: nat
  pending_tasks :: nat
  in_progress_tasks :: nat
  developed_tasks :: nat
  tested_tasks :: nat
  deployed_tasks :: nat
  blocked_tasks :: nat

definition getProjects :: "database \<Rightarrow> jstring option \<Rightarrow> project_counts list" where
  "getProjects db client =
     (let ps = (if present client then filter (\<lambda>p. p_client p = map_option utf8 client) (projects db)
                else projects db);
          counts = (\<lambda>p. let rows = filter (\<lambda>t. t_project_id t = p_id p) (tasks db)
                         in \<lparr>pc_project = p,
                             total_tasks = length rows,
                             pending_tasks = count_where t_status ''pending'' rows,
                             in_progress_tasks = count_where t_status ''in-progress'' rows,
                             developed_tasks = count_where t_status ''developed'' rows,
                             tested_tasks = count_where t_status ''tested'' rows,
                             deployed_tasks = count_where t_status ''deployed'' rows,
                             blocked_tasks = count_where t_status ''blocked'' rows\<rparr>)
      in sort_key (\<lambda>r. - int (p_updated_at (pc_project r))) (map counts ps))"

section \<open>The dispatcher: mcp-server.js\<close>

subsection \<open>Input validation helpers\<close>

definition validStatuses :: "string list" where
  "validStatuses =
     [''pending'', ''in-progress'', ''developed'', ''tested'', ''deployed'', ''blocked'']"

definition validPriorities :: "string list" where
  "validPriorities = [''low'', ''medium'', ''high'', ''critical'']"

text \<open>
  \<open>validateStatus\<close> and \<open>validatePriority\<close>: the message of the error holds the value
  in a template literal, and a value that cannot be converted to a string throws a
  \<open>TypeError\<close> in place of the error.
\<close>

definition validateStatus :: "json option \<Rightarrow> error + unit" where
  "validateStatus status =
     (case status of
        None \<Rightarrow> Inr ()
      | Some v \<Rightarrow>
          if truthy (Some v) \<and> \<not> js_includes validStatuses (Some v)
          then Inl (if stringifiable v then InvalidStatus v else TypeError)
          else Inr ())"

definition validatePriority :: "json option \<Rightarrow> error + unit" where
  "validatePriority priority =
     (case priority of
        None \<Rightarrow> Inr ()
      | Some v \<Rightarrow>
          if truthy (Some v) \<and> \<not> js_includes validPriorities (Some v)
          then Inl (if stringifiable v then InvalidPriority v else TypeError)
          else Inr ())"

fun validateId :: "json option \<Rightarrow> string \<Rightarrow> error + unit" where
  "validateId (Some (JNum n)) fieldName =
     (if n \<le> 0 \<or> \<not> isInteger n then Inl (InvalidId fieldName) else Inr ())"
| "validateId _ fieldName = Inl (InvalidId fieldName)"

fun typeof_string :: "json option \<Rightarrow> bool" where
  "typeof_string (Some (JStr s)) = True"
| "typeof_string _ = False"

fun the_string :: "json option \<Rightarrow> jstring" where
  "the_string (Some (JStr s)) = s"
| "the_string _ = []"

definition validateString :: "json option \<Rightarrow> string \<Rightarrow> bool \<Rightarrow> error + unit" where
  "validateString v fieldName required =
     (if required \<and> (\<not> truthy v \<or> \<not> typeof_string v \<or> trim (the_string v) = [])
      then Inl (RequiredString fieldName)
      else if \<not> required \<and> v \<noteq> None \<and> v \<noteq> Some JNull \<and> \<not> typeof_string v
      then Inl (MustBeString fieldName)
      else Inr ())"

text \<open>A run of validations: the first one that throws ends the handler.\<close>

primrec checks :: "(error + unit) list \<Rightarrow> error + unit" where
  "checks [] = Inr ()"
| "checks (c # cs) = (case c of Inl e \<Rightarrow> Inl e | Inr u \<Rightarrow> checks cs)"

subsection \<open>From validated values to store arguments\<close>

text \<open>
  A validated id is a positive integer. The driver binds it as an integer or, beyond 32
  bits, as a double, which SQLite compares with a rowid by value. A validated text is
  \<open>undefined\<close>, \<open>null\<close> (both NULL in the store, the first by the default of the store's
  parameter) or a string. \<open>validateStatus\<close> and \<open>validatePriority\<close> also let zero and
  \<open>false\<close> through, which the driver binds as the integer 0 and a TEXT column keeps as the
  text \<open>0\<close>. No other value gets as far as a binding, and the functions give it NULL
  and 0 (\<open>true\<close> would be bound as the integer 1).
\<close>

fun id_of :: "json option \<Rightarrow> nat" where
  "id_of (Some (JNum n)) = nat \<lfloor>n\<rfloor>"
| "id_of _ = 0"

fun bind_text :: "json option \<Rightarrow> jstring option" where
  "bind_text (Some (JStr s)) = Some s"
| "bind_text (Some (JBool b)) = Some (ascii (if b then ''1'' else ''0''))"
| "bind_text (Some (JNum n)) = (if n = 0 then Some (ascii ''0'') else None)"
| "bind_text _ = None"

text \<open>
  A filter of \<open>getTasks\<close> is tested for truthiness before it is bound, and a truthy
  validated filter is a string.
\<close>

fun filter_text :: "json option \<Rightarrow> jstring option" where
  "filter_text (Some (JStr s)) = Some s"
| "filter_text _ = None"

definition filters_of :: "json \<Rightarrow> filters" where
  "filters_of a =
     \<lparr>f_project_id = map_option (\<lambda>v. id_of (Some v)) (js_get a ''project_id''),
      f_status = filter_text (js_get a ''status''),
      f_priority = filter_text (js_get a ''priority''),
      f_category = filter_text (js_get a ''category''),
      f_assignee = filter_text (js_get a ''assignee''),
      f_search = filter_text (js_get a ''search'')\<rparr>"

text \<open>A destructuring default \<open>{ key = value }\<close>: it replaces \<open>undefined\<close> only.\<close>

definition default_to :: "json \<Rightarrow> json option \<Rightarrow> json option" where
  "default_to d v = (case v of None \<Rightarrow> Some d | Some x \<Rightarrow> Some x)"

subsection \<open>Tool implementations\<close>

text \<open>
  What a tool returns. The \<open>message\<close> of a result is a fixed text around the values kept
  here: the id and the name of the project or task.
\<close>

datatype tool_result =
    ProjectCreated nat jstring
  | ProjectList "project_counts list"
  | TaskAdded nat jstring
  | TaskUpdated nat
  | TaskList "task list"
  | ProjectSummary jstring nat summary
  | TaskDeleted nat
  | ProjectDeleted jstring

definition createProject_checks :: "json \<Rightarrow> error + unit" where
  "createProject_checks a = checks
     [validateString (js_get a ''name'') ''Name'' True,
      validateString (js_get a ''client'') ''Client'' False,
      validateString (js_get a ''description'') ''Description'' False]"

definition tool_createProject ::
  "database \<Rightarrow> nat \<Rightarrow> json option \<Rightarrow> (error + tool_result) \<times> database" where
  "tool_createProject db now args =
     (case destructure args of
        Inl e \<Rightarrow> (Inl e, db)
      | Inr a \<Rightarrow>
          (case createProject_checks a of
             Inl e \<Rightarrow> (Inl e, db)
           | Inr u \<Rightarrow>
               (case createProject db now (bind_text (js_get a ''name''))
                       (bind_text (js_get a ''client'')) (bind_text (js_get a ''description'')) of
                  (Inl e, db') \<Rightarrow> (Inl e, db')
                | (Inr pid, db') \<Rightarrow>
                    (Inr (ProjectCreated pid (the_string (js_get a ''name''))), db'))))"

definition tool_listProjects ::
  "database \<Rightarrow> nat \<Rightarrow> json option \<Rightarrow> (error + tool_result) \<times> database" where
  "tool_listProjects db now args =
     (case destructure args of
        Inl e \<Rightarrow> (Inl e, db)
      | Inr a \<Rightarrow>
          (case validateString (js_get a ''client'') ''Client'' False of
             Inl e \<Rightarrow> (Inl e, db)
           | Inr u \<Rightarrow> (Inr (ProjectList (getProjects db (filter_text (js_get a ''client'')))), db)))"

definition addTask_checks :: "json \<Rightarrow> error + unit" where
  "addTask_checks a = checks
     [validateId (js_get a ''project_id'') ''Project ID'',
      validateString (js_get a ''description'') ''Description'' True,
      validatePriority (default_to (JStr (ascii ''medium'')) (js_get a ''priority'')),
      validateString (js_get a ''category'') ''Category'' False,
      validateString (js_get a ''assignee'') ''Assignee'' False,
      validateString (js_get a ''due_date'') ''Due date'' False]"

definition tool_addTask ::
  "database \<Rightarrow> nat \<Rightarrow> json option \<Rightarrow> (error + tool_result) \<times> database" where
  "tool_addTask db now args =
     (case destructure args of
        Inl e \<Rightarrow> (Inl e, db)
      | Inr a \<Rightarrow>
          (case addTask_checks a of
             Inl e \<Rightarrow> (Inl e, db)
           | Inr u \<Rightarrow>
               let project_id = id_of (js_get a ''project_id'') in
               (case getProject db project_id of
                  None \<Rightarrow> (Inl (ProjectNotFound project_id), db)
                | Some project \<Rightarrow>
                    (case addTask db now project_id
                            (bind_text (js_get a ''description''))
                            (bind_text (default_to (JStr (ascii ''medium'')) (js_get a ''priority'')))
                            (bind_text (js_get a ''category''))
                            (bind_text (js_get a ''assignee''))
                            (bind_text (js_get a ''due_date'')) of
                       (Inl e, db') \<Rightarrow> (Inl e, db')
                     | (Inr tid, db') \<Rightarrow> (Inr (TaskAdded tid (p_name project)), db')))))"

definition updateTask_checks :: "json \<Rightarrow> error + unit" where
  "updateTask_checks a = checks
     [validateId (js_get a ''id'') ''Case ID'',
      validateStatus (js_get a ''status''),
      validatePriority (js_get a ''priority''),
      validateString (js_get a ''notes'') ''Notes'' False,
      validateString (js_get a ''category'') ''Category'' False,
      validateString (js_get a ''description'') ''Description'' False,
      validateString (js_get a ''assignee'') ''Assignee'' False,
      validateString (js_get a ''due_date'') ''Due date'' False]"

text \<open>The \<open>updates\<close> object: a key for every argument that is not \<open>undefined\<close>, in this order.\<close>

definition updates_of :: "json \<Rightarrow> (jstring \<times> jstring option) list" where
  "updates_of a =
     concat (map (\<lambda>k. case js_get a k of None \<Rightarrow> [] | Some v \<Rightarrow> [(ascii k, bind_text (Some v))])
       [''status'', ''notes'', ''priority'', ''category'', ''description'', ''assignee'',
        ''due_date''])"

definition tool_updateTask ::
  "database \<Rightarrow> nat \<Rightarrow> json option \<Rightarrow> (error + tool_result) \<times> database" where
  "tool_updateTask db now args =
     (case destructure args of
        Inl e \<Rightarrow> (Inl e, db)
      | Inr a \<Rightarrow>
          (case updateTask_checks a of
             Inl e \<Rightarrow> (Inl e, db)
           | Inr u \<Rightarrow>
               let tid = id_of (js_get a ''id'') in
               (case updateTask db now tid (updates_of a) of
                  (Inl e, db') \<Rightarrow> (Inl e, db')
                | (Inr success, db') \<Rightarrow>
                    if \<not> success then (Inl (TaskNotFound tid), db')
                    else (Inr (TaskUpdated tid), db'))))"

definition getTasks_checks :: "json \<Rightarrow> error + unit" where
  "getTasks_checks a = checks
     [(if js_get a ''project_id'' \<noteq> None then validateId (js_get a ''project_id'') ''Project ID''
       else Inr ()),
      validateStatus (js_get a ''status''),
      validatePriority (js_get a ''priority''),
      validateString (js_get a ''category'') ''Category'' False,
      validateString (js_get a ''assignee'') ''Assignee'' False,
      validateString (js_get a ''search'') ''Search'' False]"

definition tool_getTasks ::
  "database \<Rightarrow> nat \<Rightarrow> json option \<Rightarrow> (error + tool_result) \<times> database" where
  "tool_getTasks db now args =
     (case destructure args of
        Inl e \<Rightarrow> (Inl e, db)
      | Inr a \<Rightarrow>
          (case getTasks_checks a of
             Inl e \<Rightarrow> (Inl e, db)
           | Inr u \<Rightarrow> (Inr (TaskList (getTasks db (filters_of a))), db)))"

definition tool_getProjectSummary ::
  "database \<Rightarrow> nat \<Rightarrow> json option \<Rightarrow> (error + tool_result) \<times> database" where
  "tool_getProjectSummary db now args =
     (case destructure args of
        Inl e \<Rightarrow> (Inl e, db)
      | Inr a \<Rightarrow>
          (case validateId (js_get a ''project_id'') ''Project ID'' of
             Inl e \<Rightarrow> (Inl e, db)
           | Inr u \<Rightarrow>
               let project_id = id_of (js_get a ''project_id'') in
               (case getProject db project_id of
                  None \<Rightarrow> (Inl (ProjectNotFound project_id), db)
                | Some project \<Rightarrow>
                    (Inr (ProjectSummary (p_name project) project_id
                            (getProjectSummary db project_id)), db))))"

definition tool_deleteTask ::
  "database \<Rightarrow> nat \<Rightarrow> json option \<Rightarrow> (error + tool_result) \<times> database" where
  "tool_deleteTask db now args =
     (case destructure args of
        Inl e \<Rightarrow> (Inl e, db)
      | Inr a \<Rightarrow>
          (case validateId (js_get a ''id'') ''Task ID'' of
             Inl e \<Rightarrow> (Inl e, db)
           | Inr u \<Rightarrow>
               let tid = id_of (js_get a ''id'') in
               (case deleteTask db now tid of
                  (success, db') \<Rightarrow>
                    if \<not> success then (Inl (TaskNotFound tid), db')
                    else (Inr (TaskDeleted tid), db'))))"

definition tool_deleteProject ::
  "database \<Rightarrow> nat \<Rightarrow> json option \<Rightarrow> (error + tool_result) \<times> database" where
  "tool_deleteProject db now args =
     (case destructure args of
        Inl e \<Rightarrow> (Inl e, db)
      | Inr a \<Rightarrow>
          (case validateId (js_get a ''id'') ''Project ID'' of
             Inl e \<Rightarrow> (Inl e, db)
           | Inr u \<Rightarrow>
               let pid = id_of (js_get a ''id'') in
               (case getProject db pid of
                  None \<Rightarrow> (Inl (ProjectNotFound pid), db)
                | Some project \<Rightarrow>
                    (case deleteProject db pid of
                       (success, db') \<Rightarrow> (Inr (ProjectDeleted (p_name project)), db')))))"

subsection \<open>Response envelopes and routing\<close>

text \<open>
  One entry of the catalog of \<open>tools/list\<close>: the name of the tool, its properties (name,
  type, enumerated values if any) and the required ones.
\<close>

record tool_descriptor =
  td_name :: string
  td_properties :: "(string \<times> string \<times> string list) list"
  td_required :: "string list"

datatype result_body =
    InitializeResult string string string
  | ToolsList "tool_descriptor list"
  | ToolContent tool_result

text \<open>
  A response object: \<open>jsonrpc\<close>, the \<open>id\<close> (left out by \<open>JSON.stringify\<close> when it is
  \<open>undefined\<close>), and the keys \<open>result\<close> and \<open>error\<close>, each present or not. An error is
  its code and its message.
\<close>

record response =
  r_jsonrpc :: string
  r_id :: "json option"
  r_result :: "result_body option"
  r_error :: "(int \<times> error) option"

definition handleInitialize :: "json option \<Rightarrow> response" where
  "handleInitialize rid =
     \<lparr>r_jsonrpc = ''2.0'', r_id = rid,
      r_result = Some (InitializeResult ''2024-11-05'' ''mcp-project-tracker'' ''1.0.0''),
      r_error = None\<rparr>"

definition tools :: "tool_descriptor list" where
  "tools =
     [\<lparr>td_name = ''create_project'',
       td_properties = [(''name'', ''string'', []), (''client'', ''string'', []),
                        (''description'', ''string'', [])],
       td_required = [''name'']\<rparr>,
      \<lparr>td_name = ''list_projects'',
       td_properties = [(''client'', ''string'', [])],
       td_required = []\<rparr>,
      \<lparr>td_name = ''add_task'',
       td_properties = [(''project_id'', ''number'', []), (''description'', ''string'', []),
                        (''priority'', ''string'', [''low'', ''medium'', ''high'', ''critical'']),
                        (''category'', ''string'', []), (''assignee'', ''string'', []),
                        (''due_date'', ''string'', [])],
       td_required = [''project_id'', ''description'']\<rparr>,
      \<lparr>td_name = ''update_task'',
       td_properties = [(''id'', ''number'', []),
                        (''status'', ''string'',
                           [''pending'', ''in-progress'', ''developed'', ''tested'', ''deployed'',
                            ''blocked'']),
                        (''notes'', ''string'', []),
                        (''priority'', ''string'', [''low'', ''medium'', ''high'', ''critical'']),
                        (''category'', ''string'', []), (''description'', ''string'', []),
                        (''assignee'', ''string'', []), (''due_date'', ''string'', [])],
       td_required = [''id'']\<rparr>,
      \<lparr>td_name = ''get_tasks'',
       td_properties = [(''project_id'', ''number'', []),
                        (''status'', ''string'',
                           [''pending'', ''in-progress'', ''developed'', ''tested'', ''deployed'',
                            ''blocked'']),
                        (''priority'', ''string'', [''low'', ''medium'', ''high'', ''critical'']),
                        (''category'', ''string'', []), (''assignee'', ''string'', []),
                        (''search'', ''string'', [])],
       td_required = []\<rparr>,
      \<lparr>td_name = ''get_project_summary'',
       td_properties = [(''project_id'', ''number'', [])],
       td_required = [''project_id'']\<rparr>,
      \<lparr>td_name = ''delete_task'',
       td_properties = [(''id'', ''number'', [])],
       td_required = [''id'']\<rparr>,
      \<lparr>td_name = ''delete_project'',
       td_properties = [(''id'', ''number'', [])],
       td_required = [''id'']\<rparr>]"

definition handleToolsList :: "json option \<Rightarrow> response" where
  "handleToolsList rid =
     \<lparr>r_jsonrpc = ''2.0'', r_id = rid, r_result = Some (ToolsList tools), r_error = None\<rparr>"

text \<open>
  The \<open>switch\<close> of \<open>handleToolCall\<close>, inside its \<open>try\<close>. The message of the default
  case holds the name in a template literal.
\<close>

definition call_tool ::
  "database \<Rightarrow> nat \<Rightarrow> json option \<Rightarrow> json option \<Rightarrow> (error + tool_result) \<times> database" where
  "call_tool db now name args =
     (if name = Some (JStr (ascii ''create_project'')) then tool_createProject db now args
      else if name = Some (JStr (ascii ''list_projects'')) then tool_listProjects db now args
      else if name = Some (JStr (ascii ''add_task'')) then tool_addTask db now args
      else if name = Some (JStr (ascii ''update_task'')) then tool_updateTask db now args
      else if name = Some (JStr (ascii ''get_tasks'')) then tool_getTasks db now args
      else if name = Some (JStr (ascii ''get_project_summary'')) then tool_getProjectSummary db now args
      else if name = Some (JStr (ascii ''delete_task'')) then tool_deleteTask db now args
      else if name = Some (JStr (ascii ''delete_project'')) then tool_deleteProject db now args
      else (Inl (if stringifiable_opt name then UnknownTool name else TypeError), db))"

text \<open>
  \<open>handleToolCall\<close>: the destructuring of \<open>params\<close> is outside the \<open>try\<close> and its
  \<open>TypeError\<close> leaves the function; whatever is thrown inside becomes an error envelope.
\<close>

definition handleToolCall ::
  "database \<Rightarrow> nat \<Rightarrow> json option \<Rightarrow> json option \<Rightarrow> error + response \<times> database" where
  "handleToolCall db now params rid =
     (case destructure params of
        Inl e \<Rightarrow> Inl e
      | Inr p \<Rightarrow>
          (case call_tool db now (js_get p ''name'') (js_get p ''arguments'') of
             (Inr result, db') \<Rightarrow>
               Inr (\<lparr>r_jsonrpc = ''2.0'', r_id = rid, r_result = Some (ToolContent result),
                     r_error = None\<rparr>, db')
           | (Inl e, db') \<Rightarrow>
               Inr (\<lparr>r_jsonrpc = ''2.0'', r_id = rid, r_result = None,
                     r_error = Some (- 32000, e)\<rparr>, db')))"

definition handleMessage :: "database \<Rightarrow> nat \<Rightarrow> json \<Rightarrow> error + response \<times> database" where
  "handleMessage db now message =
     (case destructure (Some message) of
        Inl e \<Rightarrow> Inl e
      | Inr m \<Rightarrow>
          let method = js_get m ''method'';
              params = default_to (JObj []) (js_get m ''params'');
              rid = js_get m ''id''
          in if method = Some (JStr (ascii ''initialize'')) then Inr (handleInitialize rid, db)
             else if method = Some (JStr (ascii ''tools/list'')) then Inr (handleToolsList rid, db)
             else if method = Some (JStr (ascii ''tools/call'')) then handleToolCall db now params rid
             else Inl (if stringifiable_opt method then UnknownMethod method else TypeError))"

definition sendError :: "error \<Rightarrow> json \<Rightarrow> response" where
  "sendError message rid =
     \<lparr>r_jsonrpc = ''2.0'', r_id = Some rid, r_result = None, r_error = Some (- 32000, message)\<rparr>"

subsection \<open>Message framing\<close>

text \<open>
  \<open>buffer.indexOf('\n')\<close> with the two \<open>slice\<close>s around it: the text before the first
  newline and the text after it, or \<open>None\<close> when the buffer holds no newline.
\<close>

fun split_line :: "jstring \<Rightarrow> (jstring \<times> jstring) option" where
  "split_line [] = None"
| "split_line (c # cs) =
     (if c = 0x0A then Some ([], cs)
      else map_option (\<lambda>lr. (c # fst lr, snd lr)) (split_line cs))"

text \<open>
  The \<open>while\<close> loop of the \<open>data\<close> handler, inside its \<open>try\<close>, on the buffer that
  already holds the chunk, the text that \<open>chunk.toString()\<close> gives. \<open>parse\<close> is
  \<open>JSON.parse\<close>, with \<open>None\<close> where it throws its \<open>SyntaxError\<close>. The result is the
  store, the buffer and the lines written to standard output, one envelope each. An
  exception ends the loop, and the \<open>catch\<close> around the loop writes it with \<open>sendError\<close>
  and the id \<open>null\<close>. A chunk is handled to its end before the next one, at one reading
  \<open>now\<close> of the clock.
\<close>

function process_lines ::
  "(jstring \<Rightarrow> json option) \<Rightarrow> nat \<Rightarrow> database \<Rightarrow> jstring \<Rightarrow> database \<times> jstring \<times> response list" where
  "process_lines parse now db buf =
     (case split_line buf of
        None \<Rightarrow> (db, buf, [])
      | Some (l, rest) \<Rightarrow>
          let line = trim l in
          if line = [] then process_lines parse now db rest
          else
            (case parse line of
               None \<Rightarrow> (db, rest, [sendError SyntaxError JNull])
             | Some message \<Rightarrow>
                 (case handleMessage db now message of
                    Inl e \<Rightarrow> (db, rest, [sendError e JNull])
                  | Inr (response, db') \<Rightarrow>
                      (case process_lines parse now db' rest of
                         (db'', buf', out) \<Rightarrow> (db'', buf', response # out)))))"
  by pat_completeness auto
termination
proof (relation "measure (\<lambda>(parse, now, db, buf). length buf)")
  have shorter: "length r < length b" if "split_line b = Some (l, r)" for b l r
    using that by (induction b arbitrary: l) (auto split: if_splits)
  show "wf (measure (\<lambda>(parse, now, db, buf). length buf))"
    by simp
  show "((parse, now, db, rest), (parse, now, db, buf))
          \<in> measure (\<lambda>(parse, now, db, buf). length buf)"
    if "split_line buf = Some x2" and "(l, rest) = x2"
    for parse :: "jstring \<Rightarrow> json option" and now :: nat and db :: database and buf x2 l rest
    using that shorter [of buf l rest] by simp
  show "((parse, now, db', rest), (parse, now, db, buf))
          \<in> measure (\<lambda>(parse, now, db, buf). length buf)"
    if "split_line buf = Some x2" and "(l, rest) = x2"
    for parse :: "jstring \<Rightarrow> json option" and now :: nat and db db' :: database
      and buf x2 l rest
    using that shorter [of buf l rest] by simp
qed

declare process_lines.simps [simp del]

record server =
  s_db :: database
  inputBuffer :: jstring

definition on_data ::
  "(jstring \<Rightarrow> json option) \<Rightarrow> nat \<Rightarrow> server \<Rightarrow> jstring \<Rightarrow> server \<times> response list" where
  "on_data parse now srv chunk =
     (case process_lines parse now (s_db srv) (inputBuffer srv @ chunk) of
        (db', buf', out) \<Rightarrow> (\<lparr>s_db = db', inputBuffer = buf'\<rparr>, out))"

section \<open>The client of the smoke test: request correlation\<close>

text \<open>
  \<open>MCPTestClient\<close>. Each call makes a promise, which the model keeps by the id of the
  request: \<open>settled\<close> maps the id to the outcome of its promise once it has one, and a
  promise keeps its first outcome. \<open>pending\<close> lists the keys of the \<open>Map\<close> in insertion
  order; the two callbacks stored under a key clear the timer of that request and settle
  its promise. \<open>timers\<close> maps an id to the deadline of its armed timer and the method named
  in its message. Time is a reading of a clock in milliseconds, handed to the events.
\<close>

datatype client_error = Timeout nat jstring | ServerExited nat "int option"

datatype outcome = Resolved json | Rejected client_error

record request =
  q_jsonrpc :: string
  q_id :: nat
  q_method :: jstring
  q_params :: json

record client =
  nextId :: nat
  pending :: "nat list"
  timers :: "nat \<Rightarrow> (nat \<times> jstring) option"
  settled :: "nat \<Rightarrow> outcome option"
  stdoutBuffer :: jstring
  written :: "request list"

definition REQUEST_TIMEOUT_MS :: nat where
  "REQUEST_TIMEOUT_MS = 8000"

definition new_client :: client where
  "new_client =
     \<lparr>nextId = 1, pending = [], timers = (\<lambda>k. None), settled = (\<lambda>k. None),
      stdoutBuffer = [], written = []\<rparr>"

text \<open>\<open>resolve\<close> and \<open>reject\<close> of a promise: they do nothing once it is settled.\<close>

definition settle :: "nat \<Rightarrow> outcome \<Rightarrow> (nat \<Rightarrow> outcome option) \<Rightarrow> (nat \<Rightarrow> outcome option)" where
  "settle k out s = (if s k = None then s(k \<mapsto> out) else s)"

text \<open>\<open>pending.set(id, ...)\<close>, on the keys: a new key goes last.\<close>

definition pending_set :: "nat \<Rightarrow> nat list \<Rightarrow> nat list" where
  "pending_set k ks = (if k \<in> set ks then ks else ks @ [k])"

text \<open>\<open>call\<close>: the id, and the client with the timer armed, the entry stored, the line written.\<close>

definition client_call :: "nat \<Rightarrow> client \<Rightarrow> jstring \<Rightarrow> json \<Rightarrow> nat \<times> client" where
  "client_call now c method params =
     (let k = nextId c in
      (k, c\<lparr>nextId := k + 1,
             timers := (timers c)(k \<mapsto> (now + REQUEST_TIMEOUT_MS, method)),
             pending := pending_set k (pending c),
             written := written c @
               [\<lparr>q_jsonrpc = ''2.0'', q_id = k, q_method = method, q_params = params\<rparr>]\<rparr>))"

text \<open>The key of the \<open>Map\<close> that a decoded \<open>id\<close> is equal to, if it is a number of that kind.\<close>

fun key_of :: "json option \<Rightarrow> nat option" where
  "key_of (Some (JNum q)) = (if 0 \<le> q \<and> isInteger q then Some (nat \<lfloor>q\<rfloor>) else None)"
| "key_of _ = None"

text \<open>
  The body of the inner \<open>try\<close> for one decoded message. Reading \<open>message.id\<close> off
  \<open>null\<close> throws, and the \<open>catch\<close> ignores it.
\<close>

definition client_message :: "client \<Rightarrow> json \<Rightarrow> client" where
  "client_message c message =
     (case destructure (Some message) of
        Inl e \<Rightarrow> c
      | Inr m \<Rightarrow>
          (case key_of (js_get m ''id'') of
             None \<Rightarrow> c
           | Some k \<Rightarrow>
               if truthy (js_get m ''id'') \<and> k \<in> set (pending c)
               then c\<lparr>pending := filter (\<lambda>j. j \<noteq> k) (pending c),
                      timers := (timers c)(k := None),
                      settled := settle k (Resolved message) (settled c)\<rparr>
               else c))"

function client_lines :: "(jstring \<Rightarrow> json option) \<Rightarrow> client \<Rightarrow> jstring \<Rightarrow> client \<times> jstring" where
  "client_lines parse c buf =
     (case split_line buf of
        None \<Rightarrow> (c, buf)
      | Some (l, rest) \<Rightarrow>
          let line = trim l in
          if line = [] then client_lines parse c rest
          else client_lines parse
                 (case parse line of None \<Rightarrow> c | Some message \<Rightarrow> client_message c message) rest)"
  by pat_completeness auto
termination
proof (relation "measure (\<lambda>(parse, c, buf). length buf)")
  have shorter: "length r < length b" if "split_line b = Some (l, r)" for b l r
    using that by (induction b arbitrary: l) (auto split: if_splits)
  show "wf (measure (\<lambda>(parse, c, buf). length buf))"
    by simp
  show "((parse, c, rest), (parse, c, buf)) \<in> measure (\<lambda>(parse, c, buf). length buf)"
    if "split_line buf = Some x2" and "(l, rest) = x2"
    for parse :: "jstring \<Rightarrow> json option" and c :: client and buf x2 l rest
    using that shorter [of buf l rest] by simp
  show "((parse, c', rest), (parse, c, buf)) \<in> measure (\<lambda>(parse, c, buf). length buf)"
    if "split_line buf = Some x2" and "(l, rest) = x2"
    for parse :: "jstring \<Rightarrow> json option" and c c' :: client and buf x2 l rest
    using that shorter [of buf l rest] by simp
qed

declare client_lines.simps [simp del]

definition client_data :: "(jstring \<Rightarrow> json option) \<Rightarrow> client \<Rightarrow> jstring \<Rightarrow> client" where
  "client_data parse c chunk =
     (case client_lines parse c (stdoutBuffer c @ chunk) of
        (c', buf') \<Rightarrow> c'\<lparr>stdoutBuffer := buf'\<rparr>)"

text \<open>
  The callback of \<open>setTimeout\<close> for request \<open>k\<close>. It runs only while the timer is armed,
  and not before its deadline.
\<close>

definition client_timeout :: "nat \<Rightarrow> client \<Rightarrow> nat \<Rightarrow> client" where
  "client_timeout now c k =
     (case timers c k of
        None \<Rightarrow> c
      | Some (deadline, method) \<Rightarrow>
          if now < deadline then c
          else c\<lparr>timers := (timers c)(k := None),
                 pending := filter (\<lambda>j. j \<noteq> k) (pending c),
                 settled := settle k (Rejected (Timeout k method)) (settled c)\<rparr>)"

text \<open>The handler of \<open>exit\<close>: every entry is rejected with the code, then the map is cleared.\<close>

definition client_exit :: "client \<Rightarrow> int option \<Rightarrow> client" where
  "client_exit c code =
     c\<lparr>settled := fold (\<lambda>k s. settle k (Rejected (ServerExited k code)) s) (pending c) (settled c),
       timers := (\<lambda>k. if k \<in> set (pending c) then None else timers c k),
       pending := []\<rparr>"

text \<open>
  What holds of the client in every state it reaches: the next id is positive; the pending
  ids are ids given out so far, each once, whose promise is not yet settled and whose
  timer is armed; no promise is settled and no timer armed under an id that is still to
  be given out.
\<close>

definition client_ok :: "client \<Rightarrow> bool" where
  "client_ok c =
     (0 < nextId c
      \<and> list_all (\<lambda>k. 0 < k \<and> k < nextId c \<and> settled c k = None \<and> timers c k \<noteq> None) (pending c)
      \<and> distinct (pending c)
      \<and> (\<forall>j. nextId c \<le> j \<longrightarrow> settled c j = None \<and> timers c j = None))"

section \<open>Notions used in the statements\<close>





text \<open>A store with one project and no task, as \<open>create_project\<close> leaves an empty store.\<close>

definition db_one :: database where
  "db_one =
     \<lparr>projects = [\<lparr>p_id = 1, p_name = ascii ''Smoke Project'', p_client = Some (ascii ''VSCode''),
                    p_description = None, p_created_at = 5, p_updated_at = 5\<rparr>],
      tasks = [], projects_seq = 1, tasks_seq = 0\<rparr>"

text \<open>A store with two projects and three tasks.\<close>

definition db_two :: database where
  "db_two =
     \<lparr>projects =
        [\<lparr>p_id = 1, p_name = ascii ''Smoke Project'', p_client = Some (ascii ''VSCode''),
          p_description = None, p_created_at = 5, p_updated_at = 7\<rparr>,
         \<lparr>p_id = 2, p_name = ascii ''Other'', p_client = None,
          p_description = None, p_created_at = 6, p_updated_at = 8\<rparr>],
      tasks =
        [\<lparr>t_id = 1, t_project_id = 1, t_description = ascii ''Validate end-to-end'',
          t_priority = Some (ascii ''high''), t_status = Some (ascii ''deployed''),
          t_category = None, t_assignee = None, t_due_date = None, t_notes = None,
          t_created_at = 6, t_updated_at = 7\<rparr>,
         \<lparr>t_id = 2, t_project_id = 1, t_description = ascii ''Write report'',
          t_priority = Some (ascii ''medium''), t_status = Some (ascii ''pending''),
          t_category = None, t_assignee = None, t_due_date = None, t_notes = None,
          t_created_at = 7, t_updated_at = 7\<rparr>,
         \<lparr>t_id = 3, t_project_id = 2, t_description = ascii ''Plan'',
          t_priority = Some (ascii ''low''), t_status = Some (ascii ''tested''),
          t_category = None, t_assignee = None, t_due_date = None, t_notes = None,
          t_created_at = 8, t_updated_at = 8\<rparr>],
      projects_seq = 2, tasks_seq = 3\<rparr>"

text \<open>
  A store with one project of forty tasks, the tasks 1 to 23 deployed and the tasks 24
  to 40 pending.
\<close>

definition task_forty :: "nat \<Rightarrow> task" where
  "task_forty i =
     \<lparr>t_id = i, t_project_id = 1, t_description = ascii ''Step'',
      t_priority = Some (ascii ''medium''),
      t_status = Some (if i \<le> 23 then ascii ''deployed'' else ascii ''pending''),
      t_category = None, t_assignee = None, t_due_date = None, t_notes = None,
      t_created_at = 6, t_updated_at = 6\<rparr>"

definition db_forty :: database where
  "db_forty =
     \<lparr>projects = [\<lparr>p_id = 1, p_name = ascii ''Smoke Project'', p_client = None,
                    p_description = None, p_created_at = 5, p_updated_at = 6\<rparr>],
      tasks = map task_forty [1..<41], projects_seq = 1, tasks_seq = 40\<rparr>"

text \<open>
  Timestamps of projects: every row of project \<open>pid\<close> carries the timestamp \<open>now\<close>; no
  project of the store is newer than \<open>now\<close>; the projects of the second store are those of
  the first, none with an older timestamp. \<open>fk_ok\<close> is what the foreign key maintains:
  the project of every task is in the store. The owning project of a call that changes a
  task is the project named by \<open>add_task\<close>, and the project of the task otherwise.
\<close>

definition touched_at :: "database \<Rightarrow> nat \<Rightarrow> nat \<Rightarrow> bool" where
  "touched_at db pid now = list_all (\<lambda>p. p_id p = pid \<longrightarrow> p_updated_at p = now) (projects db)"

definition clock_ahead :: "database \<Rightarrow> nat \<Rightarrow> bool" where
  "clock_ahead db now = list_all (\<lambda>p. p_updated_at p \<le> now) (projects db)"

definition not_older :: "database \<Rightarrow> database \<Rightarrow> bool" where
  "not_older db db' =
     list_all2 (\<lambda>p p'. p_id p' = p_id p \<and> p_updated_at p \<le> p_updated_at p') (projects db) (projects db')"

definition fk_ok :: "database \<Rightarrow> bool" where
  "fk_ok db = list_all (\<lambda>t. \<exists>p \<in> set (projects db). p_id p = t_project_id t) (tasks db)"

definition owning_project :: "database \<Rightarrow> string \<Rightarrow> json \<Rightarrow> nat option" where
  "owning_project db name a =
     (if name = ''add_task'' then Some (id_of (js_get a ''project_id''))
      else task_project (tasks db) (id_of (js_get a ''id'')))"

text \<open>The validations that the handler of each tool runs before it turns to the store.\<close>

definition tool_checks :: "string \<Rightarrow> json \<Rightarrow> error + unit" where
  "tool_checks name a =
     (if name = ''create_project'' then createProject_checks a
      else if name = ''list_projects'' then validateString (js_get a ''client'') ''Client'' False
      else if name = ''add_task'' then addTask_checks a
      else if name = ''update_task'' then updateTask_checks a
      else if name = ''get_tasks'' then getTasks_checks a
      else if name = ''get_project_summary'' then validateId (js_get a ''project_id'') ''Project ID''
      else if name = ''delete_task'' then validateId (js_get a ''id'') ''Task ID''
      else if name = ''delete_project'' then validateId (js_get a ''id'') ''Project ID''
      else Inr ())"

text \<open>
  A call names, by the positive integer \<open>n\<close>, a project or a task that the store does not
  hold; and the not-found error of that tool for that id.
\<close>

definition missing_reference :: "database \<Rightarrow> string \<Rightarrow> json \<Rightarrow> nat \<Rightarrow> bool" where
  "missing_reference db name a n =
     (0 < n \<and>
      (name = ''add_task'' \<and> js_get a ''project_id'' = Some (JNum (of_nat n))
         \<and> getProject db n = None
       \<or> name = ''update_task'' \<and> js_get a ''id'' = Some (JNum (of_nat n))
         \<and> task_project (tasks db) n = None
       \<or> name = ''delete_task'' \<and> js_get a ''id'' = Some (JNum (of_nat n))
         \<and> task_project (tasks db) n = None
       \<or> name = ''delete_project'' \<and> js_get a ''id'' = Some (JNum (of_nat n))
         \<and> getProject db n = None
       \<or> name = ''get_project_summary'' \<and> js_get a ''project_id'' = Some (JNum (of_nat n))
         \<and> getProject db n = None))"

definition not_found :: "string \<Rightarrow> nat \<Rightarrow> error" where
  "not_found name n =
     (if name = ''update_task'' \<or> name = ''delete_task'' then TaskNotFound n
      else ProjectNotFound n)"

text \<open>Tool calls made one after the other, each at its own time, on the store left by the last.\<close>

fun call_tools ::
  "database \<Rightarrow> (nat \<times> json option \<times> json option) list \<Rightarrow> (error + tool_result) list \<times> database" where
  "call_tools db [] = ([], db)"
| "call_tools db ((now, name, args) # cs) =
     (case call_tool db now name args of
        (r, db') \<Rightarrow> (case call_tools db' cs of (rs, db'') \<Rightarrow> (r # rs, db'')))"

text \<open>
  The loop of the \<open>data\<close> handler after its first \<open>k\<close> lines, none of which has thrown:
  the store, the buffer and the envelopes written so far. It is \<open>None\<close> when the buffer
  holds fewer lines or one of them throws.
\<close>

fun after_lines ::
  "(jstring \<Rightarrow> json option) \<Rightarrow> nat \<Rightarrow> nat \<Rightarrow> database \<Rightarrow> jstring
     \<Rightarrow> (database \<times> jstring \<times> response list) option" where
  "after_lines parse now 0 db buf = Some (db, buf, [])"
| "after_lines parse now (Suc k) db buf =
     (case split_line buf of
        None \<Rightarrow> None
      | Some (l, rest) \<Rightarrow>
          if trim l = [] then after_lines parse now k db rest
          else
            (case parse (trim l) of
               None \<Rightarrow> None
             | Some message \<Rightarrow>
                 (case handleMessage db now message of
                    Inl e \<Rightarrow> None
                  | Inr (response, db') \<Rightarrow>
                      map_option (\<lambda>(db'', buf', out). (db'', buf', response # out))
                        (after_lines parse now k db' rest))))"

text \<open>
  A decoder for the examples: it agrees with \<open>JSON.parse\<close> on the two request lines
  listed, and throws on every other line, as \<open>JSON.parse\<close> does on the line \<open>{oops\<close>.
\<close>

definition example_lines :: "(jstring \<times> json) list" where
  "example_lines =
     [(ascii ''{\"jsonrpc\":\"2.0\",\"id\":1,\"method\":\"initialize\"}'',
       JObj [(ascii ''jsonrpc'', JStr (ascii ''2.0'')), (ascii ''id'', JNum 1),
             (ascii ''method'', JStr (ascii ''initialize''))]),
      (ascii ''{\"id\":2,\"method\":\"tools/call\",\"params\":{\"name\":\"no_such_tool\"}}'',
       JObj [(ascii ''id'', JNum 2), (ascii ''method'', JStr (ascii ''tools/call'')),
             (ascii ''params'', JObj [(ascii ''name'', JStr (ascii ''no_such_tool''))])])]"

definition example_parse :: "jstring \<Rightarrow> json option" where
  "example_parse = map_of example_lines"

text \<open>A client that has made two calls, at times 0 and 5, and waits for both answers.\<close>

definition example_client :: client where
  "example_client =
     snd (client_call 5 (snd (client_call 0 new_client (ascii ''initialize'') (JObj [])))
            (ascii ''tools/list'') (JObj []))"

section \<open>Properties\<close>

subsection \<open>Strings\<close>

lemma unat_ascii_char: "unat (of_nat (of_char c) :: 16 word) = of_char c"
proof -
  have "(of_char c :: nat) < 256" by (rule nat_of_char_less_256)
  hence "(of_char c :: nat) < 65536" by linarith
  hence "(of_char c :: nat) < 2 ^ LENGTH(16)" by simp
  thus ?thesis by (simp only: unat_of_nat mod_less)
qed

lemma ascii_char_eq: "((of_nat (of_char c) :: 16 word) = of_nat (of_char d)) = (c = d)"
proof
  assume "(of_nat (of_char c) :: 16 word) = of_nat (of_char d)"
  hence "unat (of_nat (of_char c) :: 16 word) = unat (of_nat (of_char d) :: 16 word)" by simp
  hence "(of_char c :: nat) = of_char d" by (simp only: unat_ascii_char)
  thus "c = d" by simp
qed simp

lemma ascii_Nil [simp]: "ascii [] = []" "(ascii s = []) = (s = [])" "([] = ascii s) = (s = [])"
  by (auto simp: ascii_def)

lemma ascii_Cons: "ascii (c # s) = of_nat (of_char c) # ascii s"
  by (simp add: ascii_def)

lemma ascii_append: "ascii (s @ t) = ascii s @ ascii t"
  by (simp add: ascii_def)

lemma ascii_eq_iff [simp]: "(ascii s = ascii t) = (s = t)"
proof (induction s arbitrary: t)
  case Nil
  show ?case by auto
next
  case (Cons c s)
  show ?case by (cases t) (simp_all add: ascii_Cons ascii_char_eq Cons.IH)
qed

lemma ascii_mem [simp]: "(ascii s \<in> ascii ` A) = (s \<in> A)"
  by auto

lemma high_low_ascii: "\<not> is_high (of_nat (of_char c))" "\<not> is_low (of_nat (of_char c))"
proof -
  have "(of_char c :: nat) < 256" by (rule nat_of_char_less_256)
  thus "\<not> is_high (of_nat (of_char c))" "\<not> is_low (of_nat (of_char c))"
    unfolding is_high_def is_low_def unat_ascii_char by linarith+
qed

lemma utf8_ascii [simp]: "utf8 (ascii s) = ascii s"
proof (induction s rule: induct_list012)
  case 1
  show ?case by simp
next
  case (2 c)
  show ?case by (simp add: ascii_Cons high_low_ascii)
next
  case (3 c d s)
  thus ?case by (simp add: ascii_Cons high_low_ascii)
qed

lemma is_space_ascii:
  "is_space (of_nat (of_char c)) = (of_char c \<in> set [0x09, 0x0A, 0x0B, 0x0C, 0x0D, 0x20, 0xA0 :: nat])"
proof -
  have "(of_char c :: nat) < 256" by (rule nat_of_char_less_256)
  thus ?thesis
    unfolding is_space_def unat_ascii_char set_simps insert_iff empty_iff by linarith
qed

lemma trim_id:
  assumes "s \<noteq> []" and "\<not> is_space (hd s)" and "\<not> is_space (last s)"
  shows "trim s = s"
proof -
  have 1: "dropWhile is_space s = s" using assms(1,2) by (cases s) simp_all
  have "rev s \<noteq> []" "\<not> is_space (hd (rev s))" using assms(1,3) by (simp_all add: hd_rev)
  hence 2: "dropWhile is_space (rev s) = rev s" by (cases "rev s") simp_all
  show ?thesis by (simp add: trim_def 1 2)
qed

lemma trim_ascii:
  assumes "s \<noteq> []"
    and "of_char (hd s) \<notin> set [0x09, 0x0A, 0x0B, 0x0C, 0x0D, 0x20, 0xA0 :: nat]"
    and "of_char (last s) \<notin> set [0x09, 0x0A, 0x0B, 0x0C, 0x0D, 0x20, 0xA0 :: nat]"
  shows "trim (ascii s) = ascii s"
proof (rule trim_id)
  show "ascii s \<noteq> []" using assms(1) by simp
  show "\<not> is_space (hd (ascii s))"
    using assms(1,2) by (cases s) (simp_all only: ascii_Cons list.sel is_space_ascii not_False_eq_True, simp)
  show "\<not> is_space (last (ascii s))"
    using assms(1,3) by (cases s rule: rev_cases) (simp_all add: ascii_append ascii_Cons is_space_ascii)
qed

lemma split_line_append:
  "0x0A \<notin> set l \<Longrightarrow> split_line (l @ 0x0A # rest) = Some (l, rest)"
  by (induction l) auto

lemma split_line_None: "0x0A \<notin> set l \<Longrightarrow> split_line l = None"
  by (induction l) auto

lemma newline_ascii: "((0x0A :: 16 word) \<in> set (ascii s)) = (CHR 0x0A \<in> set s)"
proof -
  have "(0x0A :: 16 word) = of_nat (of_char (CHR 0x0A))" by simp
  thus ?thesis by (simp only: ascii_def set_map) (auto simp: ascii_char_eq simp del: of_char_Char)
qed

lemma split_line_ascii:
  "CHR 0x0A \<notin> set s \<Longrightarrow> split_line (ascii s @ 0x0A # rest) = Some (ascii s, rest)"
  by (rule split_line_append) (simp add: newline_ascii)

subsection \<open>Doubles\<close>

lemma ilog2_bounds:
  assumes "0 < x"
  shows "2 powi ilog2 x \<le> x \<and> x < 2 powi (ilog2 x + 1)"
proof -
  obtain p q where pq: "quotient_of x = (p, q)" by (cases "quotient_of x")
  have q: "0 < q" using pq by (rule quotient_of_denom_pos)
  have x: "x = of_int p / of_int q" using pq by (rule quotient_of_div)
  have p: "0 < p" using assms q x by (simp add: zero_less_divide_iff)
  define a where "a = bitlen p"
  define b where "b = bitlen q"
  have a0: "0 < a" unfolding a_def using p bitlen_eq_zero_iff [of p] bitlen_nonneg [of p] by linarith
  have b0: "0 < b" unfolding b_def using q bitlen_eq_zero_iff [of q] bitlen_nonneg [of q] by linarith
  have pa: "2 ^ nat (a - 1) \<le> p \<and> p < 2 ^ nat a"
    unfolding a_def using p by (rule bitlen_bounds)
  have qb: "2 ^ nat (b - 1) \<le> q \<and> q < 2 ^ nat b"
    unfolding b_def using q by (rule bitlen_bounds)
  have pa1: "(2::rat) powi (a - 1) \<le> of_int p"
  proof -
    have "of_int (2 ^ nat (a - 1)) \<le> (of_int p :: rat)" using pa by (subst of_int_le_iff) simp
    thus ?thesis using a0 by (simp add: power_int_def)
  qed
  have pa2: "of_int p < (2::rat) powi a"
  proof -
    have "(of_int p :: rat) < of_int (2 ^ nat a)" using pa by (subst of_int_less_iff) simp
    thus ?thesis using a0 by (simp add: power_int_def)
  qed
  have qb1: "(2::rat) powi (b - 1) \<le> of_int q"
  proof -
    have "of_int (2 ^ nat (b - 1)) \<le> (of_int q :: rat)" using qb by (subst of_int_le_iff) simp
    thus ?thesis using b0 by (simp add: power_int_def)
  qed
  have qb2: "of_int q < (2::rat) powi b"
  proof -
    have "(of_int q :: rat) < of_int (2 ^ nat b)" using qb by (subst of_int_less_iff) simp
    thus ?thesis using b0 by (simp add: power_int_def)
  qed
  have qpos: "(0::rat) < of_int q" using q by simp
  have bpos: "(0::rat) < 2 powi b" by simp
  have up: "x < 2 powi (a - b + 1)"
  proof -
    have "x * of_int q = of_int p" using x qpos by simp
    also have "\<dots> < 2 powi a" by (rule pa2)
    also have "\<dots> = 2 powi (a - b + 1) * 2 powi (b - 1)"
      by (simp flip: power_int_add)
    also have "\<dots> \<le> 2 powi (a - b + 1) * of_int q"
      using qb1 by (intro mult_left_mono) simp_all
    finally show ?thesis using qpos by simp
  qed
  have lo: "2 powi (a - b - 1) < x"
  proof -
    have "(2::rat) powi (a - b - 1) * of_int q < 2 powi (a - b - 1) * 2 powi b"
      using qb2 by (intro mult_strict_left_mono) simp_all
    also have "\<dots> = 2 powi (a - 1)" by (simp flip: power_int_add)
    also have "\<dots> \<le> of_int p" by (rule pa1)
    also have "\<dots> = x * of_int q" using x qpos by simp
    finally show ?thesis using qpos by simp
  qed
  show ?thesis
  proof (cases "2 powi (a - b) \<le> x")
    case True
    hence "ilog2 x = a - b" by (simp add: ilog2_def pq a_def b_def)
    thus ?thesis using True up by simp
  next
    case False
    hence "ilog2 x = a - b - 1" by (simp add: ilog2_def pq a_def b_def)
    thus ?thesis using False lo by simp
  qed
qed

lemma ilog2_unique:
  assumes "0 < x" and "2 powi k \<le> x" and "x < 2 powi (k + 1)"
  shows "ilog2 x = k"
proof -
  note b = ilog2_bounds [OF assms(1)]
  have "(2::rat) powi ilog2 x < 2 powi (k + 1)" using b assms(3) by simp
  hence 1: "ilog2 x < k + 1"
    by (meson linorder_not_less one_le_numeral power_int_increasing)
  have "(2::rat) powi k < 2 powi (ilog2 x + 1)" using b assms(2) by simp
  hence 2: "k < ilog2 x + 1"
    by (meson linorder_not_less one_le_numeral power_int_increasing)
  show ?thesis using 1 2 by simp
qed

lemma round_half_even_le:
  assumes "x \<le> of_int n"
  shows "round_half_even x \<le> n"
proof -
  have f: "\<lfloor>x\<rfloor> \<le> n" using assms by (simp add: floor_le_iff) 
  show ?thesis
  proof (cases "\<lfloor>x\<rfloor> = n")
    case True
    hence "x = of_int n" using assms by (metis floor_le_iff linorder_not_less order_le_less of_int_floor_le order_antisym)
    thus ?thesis by (simp add: round_half_even_def)
  next
    case False
    hence "\<lfloor>x\<rfloor> + 1 \<le> n" using f by simp
    thus ?thesis using f by (simp add: round_half_even_def Let_def)
  qed
qed

lemma round_half_even_nonneg: "0 \<le> x \<Longrightarrow> 0 \<le> round_half_even x"
  by (simp add: round_half_even_def Let_def)

lemma round_half_even_of_int: "round_half_even (of_int n) = n"
  by (simp add: round_half_even_def)

lemma to_double_nonneg: "0 \<le> x \<Longrightarrow> 0 \<le> to_double x"
  by (simp add: to_double_def Let_def round_half_even_nonneg)

text \<open>Rounding never passes a number that is itself a multiple of the unit in the last place.\<close>

lemma to_double_le:
  assumes "0 < x" and "x \<le> of_int b * 2 powi j" and "j + 52 \<ge> ilog2 x"
  shows "to_double x \<le> of_int b * 2 powi j"
proof -
  define e where "e = ilog2 x - 52"
  have e: "e \<le> j" using assms(3) by (simp add: e_def)
  have "x / 2 powi e \<le> of_int b * 2 powi j / 2 powi e"
    using assms(2) by (simp add: divide_right_mono)
  also have "\<dots> = of_int b * 2 powi (j - e)" by (simp add: power_int_diff)
  also have "\<dots> = of_int (b * 2 ^ nat (j - e))" using e by (simp add: power_int_def)
  finally have "round_half_even (x / 2 powi e) \<le> b * 2 ^ nat (j - e)"
    by (rule round_half_even_le)
  hence "(of_int (round_half_even (x / 2 powi e)) :: rat) \<le> of_int (b * 2 ^ nat (j - e))"
    by (subst of_int_le_iff)
  also have "\<dots> = of_int b * 2 powi (j - e)" using e by (simp add: power_int_def)
  finally have "of_int (round_half_even (x / 2 powi e)) * 2 powi e \<le> of_int b * 2 powi (j - e) * (2::rat) powi e"
    by (intro mult_right_mono) simp_all
  also have "\<dots> = of_int b * 2 powi j" by (simp add: mult.assoc flip: power_int_add)
  finally show ?thesis using assms(1) by (simp add: to_double_def e_def Let_def)
qed

lemma ilog2_le:
  assumes "0 < x" and "x < 2 powi (k + 1)"
  shows "ilog2 x \<le> k"
proof -
  have "(2::rat) powi ilog2 x < 2 powi (k + 1)" using ilog2_bounds [OF assms(1)] assms(2) by simp
  hence "ilog2 x < k + 1"
    by (meson linorder_not_less one_le_numeral power_int_increasing)
  thus ?thesis by simp
qed

lemma to_double_le_1: assumes "0 \<le> x" and "x \<le> 1" shows "to_double x \<le> 1"
proof (cases "x = 0")
  case True thus ?thesis by (simp add: to_double_def)
next
  case False
  hence x: "0 < x" using assms by simp
  have "ilog2 x \<le> 0" using x assms by (intro ilog2_le) simp_all
  thus ?thesis using to_double_le [OF x, of 1 0] assms by simp
qed

lemma to_double_le_100: assumes "0 \<le> x" and "x \<le> 100" shows "to_double x \<le> 100"
proof (cases "x = 0")
  case True thus ?thesis by (simp add: to_double_def)
next
  case False
  hence x: "0 < x" using assms by simp
  have "ilog2 x \<le> 6" using x assms by (intro ilog2_le) simp_all
  thus ?thesis using to_double_le [OF x, of 100 0] assms by simp
qed

lemma to_double_of_nat:
  assumes "n \<le> 2 ^ 53"
  shows "to_double (of_nat n) = of_nat n"
proof (cases "n = 0")
  case True thus ?thesis by (simp add: to_double_def)
next
  case False
  define x :: rat where "x = of_nat n"
  have x: "0 < x" using False by (simp add: x_def)
  define e where "e = ilog2 x - 52"
  show ?thesis
  proof (cases "n = 2 ^ 53")
    case True
    hence "ilog2 x = 53" by (intro ilog2_unique) (simp_all add: x_def)
    thus ?thesis using True by (simp add: to_double_def x_def round_half_even_def power_int_def)
  next
    case False
    hence "n < 2 ^ 53" using assms by simp
    hence "x < 2 ^ 53" unfolding x_def by (metis of_nat_less_iff of_nat_numeral of_nat_power)
    hence "ilog2 x \<le> 52" using x by (intro ilog2_le) simp_all
    hence e: "e \<le> 0" by (simp add: e_def)
    have p: "(2::rat) powi e * 2 ^ nat (- e) = 1"
      using e by (simp add: power_int_def field_simps)
    have "x / 2 powi e = x * 2 ^ nat (- e)"
      using p by (simp add: field_simps)
    also have "\<dots> = of_int (int n * 2 ^ nat (- e))" by (simp add: x_def)
    finally have "round_half_even (x / 2 powi e) = int n * 2 ^ nat (- e)"
      by (simp only: round_half_even_of_int)
    hence "of_int (round_half_even (x / 2 powi e)) * 2 powi e = x * (2 ^ nat (- e) * 2 powi e)"
      by (simp add: x_def)
    also have "\<dots> = x" using p by (simp add: mult.commute)
    finally show ?thesis using x by (simp add: to_double_def e_def x_def)
  qed
qed

lemma to_double_eval:
  assumes "0 < x" and "2 powi k \<le> x" and "x < 2 powi (k + 1)"
  shows "to_double x = of_int (round_half_even (x * 2 powi (52 - k))) / 2 powi (52 - k)"
proof -
  have "ilog2 x = k" using assms by (rule ilog2_unique)
  moreover have "(2::rat) powi (k - 52) = 1 / 2 powi (52 - k)"
    by (metis minus_diff_eq power_int_minus inverse_eq_divide)
  ultimately show ?thesis using assms(1) by (simp add: to_double_def)
qed

lemma round_half_even_div:
  assumes "0 < b"
  shows "round_half_even (of_int a / of_int b) = round_div a b"
proof -
  have f: "\<lfloor>(of_int a :: rat) / of_int b\<rfloor> = a div b" by (rule floor_divide_of_int_eq)
  have "(of_int a :: rat) = of_int (a div b * b + a mod b)" by simp
  also have "\<dots> = of_int (a div b) * of_int b + of_int (a mod b)" by (simp only: of_int_add of_int_mult)
  finally have r: "(of_int a :: rat) / of_int b - of_int (a div b) = of_int (a mod b) / of_int b"
    using assms by (simp add: field_simps)
  have lt: "((of_int (a mod b) :: rat) / of_int b < 1 / 2) = (2 * (a mod b) < b)"
  proof -
    have "((of_int (a mod b) :: rat) / of_int b < 1 / 2) = ((of_int (2 * (a mod b)) :: rat) < of_int b)"
      using assms by (simp add: field_simps)
    thus ?thesis by (simp only: of_int_less_iff)
  qed
  have gt: "(1 / 2 < (of_int (a mod b) :: rat) / of_int b) = (b < 2 * (a mod b))"
  proof -
    have "(1 / 2 < (of_int (a mod b) :: rat) / of_int b) = ((of_int b :: rat) < of_int (2 * (a mod b)))"
      using assms by (simp add: field_simps)
    thus ?thesis by (simp only: of_int_less_iff)
  qed
  show ?thesis
    unfolding round_half_even_def round_div_def Let_def f r lt gt ..
qed

lemma round_half_even_numeral:
  "round_half_even (numeral a / numeral b) = round_div (numeral a) (numeral b)"
  using round_half_even_div [of "numeral b" "numeral a"] by simp

lemma round_half_even_int_numeral: "round_half_even (numeral a) = numeral a"
  using round_half_even_of_int [of "numeral a"] by simp

lemma Math_round_div:
  assumes "0 < b"
  shows "Math_round (of_int a / of_int b) = (2 * a + b) div (2 * b)"
proof -
  have "(of_int a :: rat) / of_int b + 1 / 2 = of_int (2 * a + b) / of_int (2 * b)"
    using assms by (simp add: field_simps)
  thus ?thesis unfolding Math_round_def by (simp only: floor_divide_of_int_eq)
qed

lemma Math_round_of_int: "Math_round (of_int n) = n"
proof -
  have "Math_round (of_int n / of_int 1) = (2 * n + 1) div (2 * 1)"
    by (rule Math_round_div) simp
  thus ?thesis by simp
qed

lemma Math_round_int_numeral: "Math_round (numeral a) = numeral a"
  using Math_round_of_int [of "numeral a"] by simp

lemma Math_round_numeral:
  "Math_round (numeral a / numeral b) = (2 * numeral a + numeral b) div (2 * numeral b)"
  using Math_round_div [of "numeral b" "numeral a"] by simp

lemma lastID_small [simp]:
  assumes "n \<le> 2 ^ 53"
  shows "lastID n = n"
  by (simp add: lastID_def to_double_of_nat [OF assms])

subsection \<open>Validation\<close>


lemma validateId_Inr:
  assumes "validateId v f = Inr u"
  shows "\<exists>n. v = Some (JNum (of_nat n)) \<and> 0 < n \<and> id_of v = n"
proof -
  from assms obtain q where v: "v = Some (JNum q)" and q: "0 < q" "isInteger q"
    by (cases "(v, f)" rule: validateId.cases) (auto split: if_splits)
  from q(2) have e: "of_int \<lfloor>q\<rfloor> = q" unfolding isInteger_def .
  moreover have "0 < \<lfloor>q\<rfloor>"
  proof -
    from q(1) e have "(0::rat) < of_int \<lfloor>q\<rfloor>" by (simp only:)
    then show ?thesis by (simp only: of_int_0_less_iff)
  qed
  ultimately have "(of_nat (nat \<lfloor>q\<rfloor>) :: rat) = q" and "0 < nat \<lfloor>q\<rfloor>"
    by (simp_all only: of_nat_nat [OF less_imp_le] zero_less_nat_eq)
  then have a: "(of_nat (nat \<lfloor>q\<rfloor>) :: rat) = q" and b: "0 < nat \<lfloor>q\<rfloor>"
    by blast+
  have "v = Some (JNum (of_nat (nat \<lfloor>q\<rfloor>)))"
    using v a by (simp only:)
  moreover have "id_of v = nat \<lfloor>q\<rfloor>"
    using v by (simp only: id_of.simps)
  ultimately show ?thesis
    using b by blast
qed

lemma validateId_of_nat: "0 < n \<Longrightarrow> validateId (Some (JNum (of_nat n))) f = Inr ()"
  by (simp add: isInteger_def)




subsection \<open>Row ids\<close>





subsection \<open>Creating a project and reading it back\<close>









subsection \<open>Updates without a writable field\<close>

text \<open>
  Claim C3. An update whose mapping names no field of the whitelist fails with the error
  \<open>No valid fields to update\<close> and leaves the store as it was, for projects and for
  tasks alike.
\<close>

theorem C3_empty_update_rejected:
  "((\<forall>a \<in> set updates. fst a \<notin> set project_allowedFields) \<longrightarrow>
      updateProject db now pid updates = (Inl NoValidFields, db))
   \<and> ((\<forall>a \<in> set updates. fst a \<notin> set task_allowedFields) \<longrightarrow>
      updateTask db now tid updates = (Inl NoValidFields, db))"
  by (auto simp: updateProject_def updateTask_def Let_def filter_empty_conv)

theorem C3_empty_update_rejected_witness:
  "updateProject db_one 9 1 [(ascii ''id'', Some (ascii ''7'')), (ascii ''created_at'', None)]
       = (Inl NoValidFields, db_one)
   \<and> updateTask db_one 9 1 [(ascii ''id'', Some (ascii ''7'')), (ascii ''created_at'', None)]
       = (Inl NoValidFields, db_one)"
proof -
  have h1: "\<forall>a \<in> set [(ascii ''id'', Some (ascii ''7'')), (ascii ''created_at'', None)]. fst a \<notin> set project_allowedFields"
    by (simp add: project_allowedFields_def)
  have h2: "\<forall>a \<in> set [(ascii ''id'', Some (ascii ''7'')), (ascii ''created_at'', None)]. fst a \<notin> set task_allowedFields"
    by (simp add: task_allowedFields_def)
  note c = C3_empty_update_rejected [of "[(ascii ''id'', Some (ascii ''7'')), (ascii ''created_at'', None)]" db_one 9 1 1]
  from c [THEN conjunct1, THEN mp, OF h1] c [THEN conjunct2, THEN mp, OF h2]
  show ?thesis by (intro conjI)
qed

subsection \<open>Deleting a project\<close>

lemma find_None_iff2: "find P xs = None \<longleftrightarrow> (\<forall>x\<in>set xs. \<not> P x)"
  by (induction xs) auto

lemma find_Some_mem: "find P xs = Some x \<Longrightarrow> x \<in> set xs \<and> P x"
  by (induction xs) (auto split: if_splits)

lemma deleteProject_cascade:
  assumes "getProject db pid = Some p" and "deleteProject db pid = (s, db')"
  shows "tasks db' = filter (\<lambda>t. t_project_id t \<noteq> pid) (tasks db) \<and> getProject db' pid = None
         \<and> projects db' = filter (\<lambda>q. p_id q \<noteq> pid) (projects db)"
proof -
  from assms(1) have "\<exists>q\<in>set (projects db). p_id q = pid"
    by (auto simp: getProject_def dest: find_Some_mem)
  then have "0 < length (filter (\<lambda>q. p_id q = pid) (projects db))"
    by (simp add: filter_empty_conv)
  with assms(2) have "db' = db\<lparr>projects := filter (\<lambda>q. p_id q \<noteq> pid) (projects db),
                         tasks := filter (\<lambda>t. t_project_id t \<noteq> pid) (tasks db)\<rparr>"
    by (auto simp: deleteProject_def Let_def)
  then show ?thesis
    by (simp add: getProject_def find_None_iff2)
qed

lemma getTasks_none:
  assumes "\<forall>t\<in>set (tasks db). t_project_id t \<noteq> pid" and "0 < pid" and "f_project_id f = Some pid"
  shows "getTasks db f = []"
proof -
  have "filter (task_matches f) (tasks db) = []"
    using assms by (auto simp: filter_empty_conv task_matches_def)
  then show ?thesis by (simp add: getTasks_def)
qed

lemma tool_deleteProject_cascade:
  assumes "tool_deleteProject db now args = (Inr r, db')"
  shows "\<exists>a pid. args = Some a \<and> js_get a ''id'' = Some (JNum (of_nat pid)) \<and> 0 < pid
           \<and> tasks db' = filter (\<lambda>t. t_project_id t \<noteq> pid) (tasks db)
           \<and> getProject db' pid = None"
proof -
  from assms obtain a where a: "args = Some a" "destructure args = Inr a"
    by (cases args rule: destructure.cases) (auto simp: tool_deleteProject_def)
  from assms a have ok: "validateId (js_get a ''id'') ''Project ID'' = Inr ()"
    by (auto simp: tool_deleteProject_def split: sum.splits)
  from validateId_Inr [OF ok] obtain pid where
    pid: "js_get a ''id'' = Some (JNum (of_nat pid))" "0 < pid" "id_of (js_get a ''id'') = pid"
    by blast
  from assms a ok pid(3) obtain p where p: "getProject db pid = Some p"
    by (auto simp: tool_deleteProject_def Let_def split: option.splits)
  from assms a ok pid(3) p obtain s where s: "deleteProject db pid = (s, db')"
    by (auto simp: tool_deleteProject_def Let_def split: prod.splits)
  from deleteProject_cascade [OF p s] a(1) pid(1,2) show ?thesis
    by blast
qed

lemma tool_getTasks_none:
  assumes "\<forall>t\<in>set (tasks db). t_project_id t \<noteq> pid" and "0 < pid"
    and "js_get a ''project_id'' = Some (JNum (of_nat pid))"
    and "getTasks_checks a = Inr ()"
  shows "tool_getTasks db now (Some a) = (Inr (TaskList []), db)"
proof -
  from assms(3) have "a \<noteq> JNull" by auto
  then have d: "destructure (Some a) = Inr a" by (cases a) auto
  have "f_project_id (filters_of a) = Some pid"
    using assms(3) by (simp add: filters_of_def)
  then have "getTasks db (filters_of a) = []"
    using assms(1,2) by (intro getTasks_none) auto
  with d assms(4) show ?thesis
    by (simp add: tool_getTasks_def)
qed

lemma getTasks_checks_project_only:
  "0 < pid \<Longrightarrow> getTasks_checks (JObj [(ascii ''project_id'', JNum (of_nat pid))]) = Inr ()"
  by (simp add: getTasks_checks_def validateId_of_nat validateStatus_def validatePriority_def
      validateString_def del: validateId.simps)

text \<open>
  Claim C4. When the tool \<open>delete_project\<close> succeeds, the tasks left in the store are
  those of the other projects, the project is gone, and \<open>get_tasks\<close> filtered by the id
  of the deleted project returns the empty list, whatever other valid filters come with it.
\<close>

theorem C4_delete_project_cascades:
  assumes "tool_deleteProject db now args = (Inr r, db')"
  shows "\<exists>a pid. args = Some a \<and> js_get a ''id'' = Some (JNum (of_nat pid)) \<and> 0 < pid
           \<and> tasks db' = filter (\<lambda>t. t_project_id t \<noteq> pid) (tasks db)
           \<and> getProject db' pid = None
           \<and> tool_getTasks db' now' (Some (JObj [(ascii ''project_id'', JNum (of_nat pid))]))
               = (Inr (TaskList []), db')
           \<and> (\<forall>f. js_get f ''project_id'' = Some (JNum (of_nat pid)) \<and> getTasks_checks f = Inr ()
                 \<longrightarrow> tool_getTasks db' now' (Some f) = (Inr (TaskList []), db'))"
proof -
  from tool_deleteProject_cascade [OF assms] obtain a pid where
    a: "args = Some a" "js_get a ''id'' = Some (JNum (of_nat pid))" "0 < pid"
       "tasks db' = filter (\<lambda>t. t_project_id t \<noteq> pid) (tasks db)" "getProject db' pid = None"
    by blast
  from a(4) have none: "\<forall>t\<in>set (tasks db'). t_project_id t \<noteq> pid" by simp
  have g: "tool_getTasks db' now' (Some f) = (Inr (TaskList []), db')"
    if "js_get f ''project_id'' = Some (JNum (of_nat pid))" "getTasks_checks f = Inr ()" for f
    using tool_getTasks_none [OF none a(3) that] .
  have "tool_getTasks db' now' (Some (JObj [(ascii ''project_id'', JNum (of_nat pid))]))
          = (Inr (TaskList []), db')"
    by (rule g) (simp_all add: getTasks_checks_project_only [OF a(3)])
  with a g show ?thesis by blast
qed

theorem C4_delete_project_cascades_witness:
  "\<exists>a pid. Some (JObj [(ascii ''id'', JNum 1)]) = Some a \<and> js_get a ''id'' = Some (JNum (of_nat pid)) \<and> 0 < pid
           \<and> tasks (snd (tool_deleteProject db_two 9 (Some (JObj [(ascii ''id'', JNum 1)]))))
               = filter (\<lambda>t. t_project_id t \<noteq> pid) (tasks db_two)
           \<and> getProject (snd (tool_deleteProject db_two 9 (Some (JObj [(ascii ''id'', JNum 1)])))) pid = None
           \<and> tool_getTasks (snd (tool_deleteProject db_two 9 (Some (JObj [(ascii ''id'', JNum 1)])))) 10
                (Some (JObj [(ascii ''project_id'', JNum (of_nat pid))]))
               = (Inr (TaskList []), snd (tool_deleteProject db_two 9 (Some (JObj [(ascii ''id'', JNum 1)]))))
           \<and> (\<forall>f. js_get f ''project_id'' = Some (JNum (of_nat pid)) \<and> getTasks_checks f = Inr ()
                 \<longrightarrow> tool_getTasks (snd (tool_deleteProject db_two 9 (Some (JObj [(ascii ''id'', JNum 1)])))) 10 (Some f)
                     = (Inr (TaskList []), snd (tool_deleteProject db_two 9 (Some (JObj [(ascii ''id'', JNum 1)])))))"
proof -
  have h: "tool_deleteProject db_two 9 (Some (JObj [(ascii ''id'', JNum 1)]))
             = (Inr (ProjectDeleted (ascii ''Smoke Project'')),
                snd (tool_deleteProject db_two 9 (Some (JObj [(ascii ''id'', JNum 1)]))))"
    by (simp add: tool_deleteProject_def isInteger_def getProject_def deleteProject_def db_two_def)
  show ?thesis by (rule C4_delete_project_cascades [OF h])
qed

subsection \<open>Task mutations and the timestamp of the project\<close>

lemma touch_touched: "list_all (\<lambda>p. p_id p = pid \<longrightarrow> p_updated_at p = now) (touch_project now pid ps)"
  by (induction ps) (auto simp: touch_project_def)

lemma touch_not_older:
  "list_all (\<lambda>p. p_updated_at p \<le> now) ps \<Longrightarrow>
   list_all2 (\<lambda>p p'. p_id p' = p_id p \<and> p_updated_at p \<le> p_updated_at p') ps (touch_project now pid ps)"
  by (induction ps) (auto simp: touch_project_def)

lemma touch_find:
  "find (\<lambda>p. p_id p = pid) ps = Some p \<Longrightarrow>
   find (\<lambda>p. p_id p = pid) (touch_project now pid ps) = Some (p\<lparr>p_updated_at := now\<rparr>)"
  by (induction ps) (auto simp: touch_project_def)

lemma addTask_projects:
  assumes "addTask db now pid d pr c a dd = (Inr tid, db')"
  shows "projects db' = touch_project now pid (projects db) \<and> (\<exists>p\<in>set (projects db). p_id p = pid)"
  using assms by (auto simp: addTask_def Let_def split: option.splits if_splits)

lemma assign_task_keeps:
  "t_id (assign_task a t) = t_id t \<and> t_project_id (assign_task a t) = t_project_id t"
  by (auto simp: assign_task_def Let_def split: option.splits)

lemma fold_assign_keeps:
  "t_id (fold assign_task as t) = t_id t \<and> t_project_id (fold assign_task as t) = t_project_id t"
  by (induction as arbitrary: t) (simp_all add: assign_task_keeps)

lemma set_task_keeps:
  "set_task as now t = Inr t' \<Longrightarrow> t_id t' = t_id t \<and> t_project_id t' = t_project_id t"
  by (auto simp: set_task_def Let_def fold_assign_keeps split: if_splits)

lemma update_where_keeps:
  assumes "\<And>r r'. f r = Inr r' \<Longrightarrow> g r' = g r"
  shows "update_where P f rs = Inr rs' \<Longrightarrow> map g rs' = map g rs"
proof (induction rs arbitrary: rs')
  case Nil
  then show ?case by simp
next
  case (Cons r rs)
  then show ?case
    using assms by (auto split: sum.splits if_splits)
qed

lemma task_project_zip:
  "task_project ts tid = map_option snd (find (\<lambda>p. fst p = tid) (zip (map t_id ts) (map t_project_id ts)))"
  by (induction ts) (simp_all add: task_project_def)

lemma find_map_cong:
  "map t_id ts' = map t_id ts \<Longrightarrow> map t_project_id ts' = map t_project_id ts \<Longrightarrow>
   task_project ts' tid = task_project ts tid"
  by (simp only: task_project_zip)

lemma updateTask_projects:
  assumes "updateTask db now tid ups = (Inr s, db')"
  shows "projects db' = (case task_project (tasks db) tid of None \<Rightarrow> projects db
                         | Some pid \<Rightarrow> touch_project now pid (projects db))
         \<and> (s \<longrightarrow> task_project (tasks db) tid \<noteq> None)"
proof -
  let ?sc = "filter (\<lambda>a. fst a \<in> set task_allowedFields) ups"
  let ?f = "set_task ?sc now"
  from assms obtain ts where ts: "update_where (\<lambda>t. t_id t = tid) ?f (tasks db) = Inr ts"
    and db': "projects db' = (case task_project ts tid of None \<Rightarrow> projects db
                              | Some pid \<Rightarrow> touch_project now pid (projects db))"
    and s: "s = (0 < length (filter (\<lambda>t. t_id t = tid) (tasks db)))"
    by (auto simp: updateTask_def Let_def split: if_splits sum.splits)
  have k: "t_id r' = t_id r \<and> t_project_id r' = t_project_id r" if "?f r = Inr r'" for r r'
    using that by (rule set_task_keeps)
  have "map t_id ts = map t_id (tasks db)"
    by (rule update_where_keeps [OF _ ts]) (use k in blast)
  moreover have "map t_project_id ts = map t_project_id (tasks db)"
    by (rule update_where_keeps [OF _ ts]) (use k in blast)
  ultimately have tp: "task_project ts tid = task_project (tasks db) tid"
    by (rule find_map_cong)
  have "task_project (tasks db) tid \<noteq> None" if s
  proof -
    from that s obtain t where "t \<in> set (tasks db)" "t_id t = tid"
      by (auto simp: filter_empty_conv)
    then show ?thesis
      by (auto simp: task_project_def find_None_iff2)
  qed
  with db' tp show ?thesis by simp
qed

lemma deleteTask_projects:
  assumes "deleteTask db now tid = (s, db')"
  shows "projects db' = (if s then (case task_project (tasks db) tid of None \<Rightarrow> projects db
                                   | Some pid \<Rightarrow> touch_project now pid (projects db))
                         else projects db)
         \<and> (s \<longrightarrow> task_project (tasks db) tid \<noteq> None)"
proof -
  have "task_project (tasks db) tid \<noteq> None" if "0 < length (filter (\<lambda>t. t_id t = tid) (tasks db))"
  proof -
    from that obtain t where "t \<in> set (tasks db)" "t_id t = tid"
      by (auto simp: filter_empty_conv)
    then show ?thesis
      by (auto simp: task_project_def find_None_iff2)
  qed
  with assms show ?thesis
    by (auto simp: deleteTask_def Let_def split: option.splits)
qed

text \<open>The definitions that evaluate a call on a concrete store.\<close>

lemmas eval_defs =
  call_tool_def tool_createProject_def tool_listProjects_def tool_addTask_def tool_updateTask_def
  tool_getTasks_def tool_getProjectSummary_def tool_deleteTask_def tool_deleteProject_def
  createProject_checks_def addTask_checks_def updateTask_checks_def getTasks_checks_def
  validateStatus_def validatePriority_def validateString_def validStatuses_def validPriorities_def
  isInteger_def trim_ascii default_to_def updates_of_def filters_of_def stringifiable_opt_def
  createProject_def getProject_def updateProject_def deleteProject_def addTask_def updateTask_def
  deleteTask_def getTasks_def task_project_def touch_project_def
  assign_task_def assign_project_def set_task_def set_project_def assigned_def assigned_null_def task_allowedFields_def project_allowedFields_def
  check_in_def schema_statuses_def schema_priorities_def next_rowid_def max_rowid_def present_def
  task_matches_def count_where_def

lemma destructure_Inr: "destructure args = Inr a \<Longrightarrow> args = Some a"
  by (cases args rule: destructure.cases) auto

lemma touched_project_found:
  assumes "\<exists>p\<in>set (projects db). p_id p = pid"
    and "projects db' = touch_project now pid (projects db)"
  shows "\<exists>p. getProject db' pid = Some p \<and> p_updated_at p = now"
proof -
  from assms(1) obtain p where "find (\<lambda>p. p_id p = pid) (projects db) = Some p"
    by (cases "find (\<lambda>p. p_id p = pid) (projects db)") (auto simp: find_None_iff2)
  from touch_find [OF this] assms(2) show ?thesis
    by (simp add: getProject_def)
qed

lemma task_project_fk:
  assumes "fk_ok db" and "task_project (tasks db) tid = Some pid"
  shows "\<exists>p\<in>set (projects db). p_id p = pid"
proof -
  from assms(2) obtain t where "t \<in> set (tasks db)" "t_project_id t = pid"
    by (auto simp: task_project_def dest: find_Some_mem)
  with assms(1) show ?thesis
    by (auto simp: fk_ok_def list_all_iff)
qed

lemma touch_summary:
  assumes "projects db' = touch_project now pid (projects db)"
  shows "touched_at db' pid now \<and> (clock_ahead db now \<longrightarrow> not_older db db')"
  using assms touch_touched [of pid now "projects db"] touch_not_older [of now "projects db" pid]
  by (simp add: touched_at_def clock_ahead_def not_older_def)

lemma tool_addTask_touch:
  assumes "tool_addTask db now args = (Inr r, db')"
  shows "\<exists>a pid. args = Some a \<and> owning_project db ''add_task'' a = Some pid
           \<and> touched_at db' pid now
           \<and> (\<exists>p. getProject db' pid = Some p \<and> p_updated_at p = now)
           \<and> (clock_ahead db now \<longrightarrow> not_older db db')"
proof -
  from assms obtain a where d: "destructure args = Inr a"
    by (cases "destructure args") (auto simp: tool_addTask_def)
  let ?pid = "id_of (js_get a ''project_id'')"
  from assms d have ok: "addTask_checks a = Inr ()"
    by (auto simp: tool_addTask_def split: sum.splits)
  from assms d ok obtain project where p: "getProject db ?pid = Some project"
    by (auto simp: tool_addTask_def Let_def split: option.splits)
  from assms d ok p obtain tid d' pr c as dd where
    "addTask db now ?pid d' pr c as dd = (Inr tid, db')"
    by (auto simp: tool_addTask_def Let_def split: sum.splits prod.splits)
  from addTask_projects [OF this]
  have t: "projects db' = touch_project now ?pid (projects db)"
    and e: "\<exists>p\<in>set (projects db). p_id p = ?pid"
    by auto
  from destructure_Inr [OF d] touch_summary [OF t] touched_project_found [OF e t]
  show ?thesis
    by (auto simp: owning_project_def)
qed

lemma tool_updateTask_touch:
  assumes "tool_updateTask db now args = (Inr r, db')"
  shows "\<exists>a pid. args = Some a \<and> owning_project db ''update_task'' a = Some pid
           \<and> touched_at db' pid now
           \<and> (fk_ok db \<longrightarrow> (\<exists>p. getProject db' pid = Some p \<and> p_updated_at p = now))
           \<and> (clock_ahead db now \<longrightarrow> not_older db db')"
proof -
  from assms obtain a where d: "destructure args = Inr a"
    by (cases "destructure args") (auto simp: tool_updateTask_def)
  let ?tid = "id_of (js_get a ''id'')"
  from assms d have ok: "updateTask_checks a = Inr ()"
    by (auto simp: tool_updateTask_def split: sum.splits)
  from assms d ok have u: "updateTask db now ?tid (updates_of a) = (Inr True, db')"
    by (auto simp: tool_updateTask_def Let_def split: sum.splits prod.splits if_splits)
  from updateTask_projects [OF u] obtain pid where
    pid: "task_project (tasks db) ?tid = Some pid"
    and t: "projects db' = touch_project now pid (projects db)"
    by auto
  have "\<exists>p. getProject db' pid = Some p \<and> p_updated_at p = now" if "fk_ok db"
    using touched_project_found [OF task_project_fk [OF that pid] t] .
  with destructure_Inr [OF d] touch_summary [OF t] pid show ?thesis
    by (auto simp: owning_project_def)
qed

lemma tool_deleteTask_touch:
  assumes "tool_deleteTask db now args = (Inr r, db')"
  shows "\<exists>a pid. args = Some a \<and> owning_project db ''delete_task'' a = Some pid
           \<and> touched_at db' pid now
           \<and> (fk_ok db \<longrightarrow> (\<exists>p. getProject db' pid = Some p \<and> p_updated_at p = now))
           \<and> (clock_ahead db now \<longrightarrow> not_older db db')"
proof -
  from assms obtain a where d: "destructure args = Inr a"
    by (cases "destructure args") (auto simp: tool_deleteTask_def)
  let ?tid = "id_of (js_get a ''id'')"
  from assms d have u: "deleteTask db now ?tid = (True, db')"
    by (auto simp: tool_deleteTask_def Let_def split: sum.splits prod.splits if_splits)
  from deleteTask_projects [OF u] obtain pid where
    pid: "task_project (tasks db) ?tid = Some pid"
    and t: "projects db' = touch_project now pid (projects db)"
    by auto
  have "\<exists>p. getProject db' pid = Some p \<and> p_updated_at p = now" if "fk_ok db"
    using touched_project_found [OF task_project_fk [OF that pid] t] .
  with destructure_Inr [OF d] touch_summary [OF t] pid show ?thesis
    by (auto simp: owning_project_def)
qed

text \<open>
  Claim C5, as the code has it. When \<open>add_task\<close>, \<open>update_task\<close> or \<open>delete_task\<close>
  succeeds at the clock reading \<open>now\<close>, every row of the owning project carries the
  timestamp \<open>now\<close> afterwards, and the project is there with it when the foreign key held
  before. If no project of the store was newer than \<open>now\<close>, that is if the clock has not
  been set back, then no project has an older timestamp after the call than before it.
\<close>

theorem C5_task_mutation_touches_project:
  assumes "name = ''add_task'' \<or> name = ''update_task'' \<or> name = ''delete_task''"
    and "call_tool db now (Some (JStr (ascii name))) args = (Inr r, db')"
  shows "\<exists>a pid. args = Some a \<and> owning_project db name a = Some pid
           \<and> touched_at db' pid now
           \<and> (fk_ok db \<longrightarrow> (\<exists>p. getProject db' pid = Some p \<and> p_updated_at p = now))
           \<and> (clock_ahead db now \<longrightarrow> not_older db db')"
proof -
  consider "name = ''add_task''" | "name = ''update_task''" | "name = ''delete_task''"
    using assms(1) by blast
  then show ?thesis
  proof cases
    case 1
    with assms(2) have "tool_addTask db now args = (Inr r, db')"
      by (simp add: call_tool_def)
    from tool_addTask_touch [OF this] 1 show ?thesis by blast
  next
    case 2
    with assms(2) have "tool_updateTask db now args = (Inr r, db')"
      by (simp add: call_tool_def)
    from tool_updateTask_touch [OF this] 2 show ?thesis by blast
  next
    case 3
    with assms(2) have "tool_deleteTask db now args = (Inr r, db')"
      by (simp add: call_tool_def)
    from tool_deleteTask_touch [OF this] 3 show ?thesis by blast
  qed
qed

theorem C5_task_mutation_touches_project_witness:
  "fk_ok db_two \<and> clock_ahead db_two 9
   \<and> (\<exists>db'. call_tool db_two 9 (Some (JStr (ascii ''add_task'')))
               (Some (JObj [(ascii ''project_id'', JNum 2), (ascii ''description'', JStr (ascii ''Ship''))]))
              = (Inr (TaskAdded 4 (ascii ''Other'')), db')
         \<and> touched_at db' 2 9
         \<and> (\<exists>p. getProject db' 2 = Some p \<and> p_updated_at p = 9)
         \<and> not_older db_two db')
   \<and> (\<exists>db'. call_tool db_two 9 (Some (JStr (ascii ''update_task'')))
               (Some (JObj [(ascii ''id'', JNum 1), (ascii ''status'', JStr (ascii ''blocked''))]))
              = (Inr (TaskUpdated 1), db')
         \<and> touched_at db' 1 9
         \<and> (\<exists>p. getProject db' 1 = Some p \<and> p_updated_at p = 9)
         \<and> not_older db_two db')
   \<and> (\<exists>db'. call_tool db_two 9 (Some (JStr (ascii ''delete_task'')))
               (Some (JObj [(ascii ''id'', JNum 3)]))
              = (Inr (TaskDeleted 3), db')
         \<and> touched_at db' 2 9
         \<and> (\<exists>p. getProject db' 2 = Some p \<and> p_updated_at p = 9)
         \<and> not_older db_two db')"
proof -
  let ?add = "Some (JObj [(ascii ''project_id'', JNum 2), (ascii ''description'', JStr (ascii ''Ship''))])"
  let ?upd = "Some (JObj [(ascii ''id'', JNum 1), (ascii ''status'', JStr (ascii ''blocked''))])"
  let ?del = "Some (JObj [(ascii ''id'', JNum 3)])"
  let ?dba = "snd (call_tool db_two 9 (Some (JStr (ascii ''add_task''))) ?add)"
  let ?dbu = "snd (call_tool db_two 9 (Some (JStr (ascii ''update_task''))) ?upd)"
  let ?dbd = "snd (call_tool db_two 9 (Some (JStr (ascii ''delete_task''))) ?del)"
  have fk: "fk_ok db_two"
    by (simp add: fk_ok_def db_two_def)
  have ck: "clock_ahead db_two 9"
    by (simp add: clock_ahead_def db_two_def)
  have ha: "call_tool db_two 9 (Some (JStr (ascii ''add_task''))) ?add
              = (Inr (TaskAdded 4 (ascii ''Other'')), ?dba)"
    by (simp add: eval_defs db_two_def)
  have hu: "call_tool db_two 9 (Some (JStr (ascii ''update_task''))) ?upd = (Inr (TaskUpdated 1), ?dbu)"
    by (simp add: eval_defs db_two_def)
  have hd: "call_tool db_two 9 (Some (JStr (ascii ''delete_task''))) ?del = (Inr (TaskDeleted 3), ?dbd)"
    by (simp add: eval_defs db_two_def)
  have oa: "owning_project db_two ''add_task'' a = Some pid \<Longrightarrow> ?add = Some a \<Longrightarrow> pid = 2" for a pid
    by (auto simp: owning_project_def)
  have ou: "owning_project db_two ''update_task'' a = Some pid \<Longrightarrow> ?upd = Some a \<Longrightarrow> pid = 1" for a pid
    by (auto simp: owning_project_def task_project_def db_two_def)
  have od: "owning_project db_two ''delete_task'' a = Some pid \<Longrightarrow> ?del = Some a \<Longrightarrow> pid = 2" for a pid
    by (auto simp: owning_project_def task_project_def db_two_def)
  from C5_task_mutation_touches_project [OF _ ha] obtain a pid where
    "?add = Some a" "owning_project db_two ''add_task'' a = Some pid"
    "touched_at ?dba pid 9"
    "fk_ok db_two \<longrightarrow> (\<exists>p. getProject ?dba pid = Some p \<and> p_updated_at p = 9)"
    "clock_ahead db_two 9 \<longrightarrow> not_older db_two ?dba"
    by blast
  with oa [OF this(2,1)] fk ck ha
  have ga: "\<exists>db'. call_tool db_two 9 (Some (JStr (ascii ''add_task''))) ?add
              = (Inr (TaskAdded 4 (ascii ''Other'')), db')
         \<and> touched_at db' 2 9
         \<and> (\<exists>p. getProject db' 2 = Some p \<and> p_updated_at p = 9)
         \<and> not_older db_two db'"
    by blast
  from C5_task_mutation_touches_project [OF _ hu] obtain a pid where
    "?upd = Some a" "owning_project db_two ''update_task'' a = Some pid"
    "touched_at ?dbu pid 9"
    "fk_ok db_two \<longrightarrow> (\<exists>p. getProject ?dbu pid = Some p \<and> p_updated_at p = 9)"
    "clock_ahead db_two 9 \<longrightarrow> not_older db_two ?dbu"
    by blast
  with ou [OF this(2,1)] fk ck hu
  have gu: "\<exists>db'. call_tool db_two 9 (Some (JStr (ascii ''update_task''))) ?upd
              = (Inr (TaskUpdated 1), db')
         \<and> touched_at db' 1 9
         \<and> (\<exists>p. getProject db' 1 = Some p \<and> p_updated_at p = 9)
         \<and> not_older db_two db'"
    by blast
  from C5_task_mutation_touches_project [OF _ hd] obtain a pid where
    "?del = Some a" "owning_project db_two ''delete_task'' a = Some pid"
    "touched_at ?dbd pid 9"
    "fk_ok db_two \<longrightarrow> (\<exists>p. getProject ?dbd pid = Some p \<and> p_updated_at p = 9)"
    "clock_ahead db_two 9 \<longrightarrow> not_older db_two ?dbd"
    by blast
  with od [OF this(2,1)] fk ck hd
  have gd: "\<exists>db'. call_tool db_two 9 (Some (JStr (ascii ''delete_task''))) ?del
              = (Inr (TaskDeleted 3), db')
         \<and> touched_at db' 2 9
         \<and> (\<exists>p. getProject db' 2 = Some p \<and> p_updated_at p = 9)
         \<and> not_older db_two db'"
    by blast
  from fk ck ga gu gd show ?thesis
    by (intro conjI)
qed

text \<open>
  The claim as stated fails when the clock has been set back: \<open>update_task\<close> at the
  reading 3 succeeds on a store whose project 1 carries the timestamp 7, and leaves that
  project with the timestamp 3.
\<close>

theorem C5_clock_set_back:
  "fst (call_tool db_two 3 (Some (JStr (ascii ''update_task'')))
          (Some (JObj [(ascii ''id'', JNum 1), (ascii ''status'', JStr (ascii ''blocked''))])))
     = Inr (TaskUpdated 1)
   \<and> map p_updated_at (projects db_two) = [7, 8]
   \<and> map p_updated_at (projects (snd (call_tool db_two 3 (Some (JStr (ascii ''update_task'')))
          (Some (JObj [(ascii ''id'', JNum 1), (ascii ''status'', JStr (ascii ''blocked''))])))))
     = [3, 8]
   \<and> \<not> not_older db_two (snd (call_tool db_two 3 (Some (JStr (ascii ''update_task'')))
          (Some (JObj [(ascii ''id'', JNum 1), (ascii ''status'', JStr (ascii ''blocked''))]))))"
  by (simp add: eval_defs not_older_def db_two_def)

subsection \<open>The summary of a project\<close>

lemma Math_round_range:
  assumes "0 \<le> x" and "x \<le> 100"
  shows "0 \<le> Math_round x \<and> Math_round x \<le> 100"
proof -
  from assms(1) have "0 \<le> \<lfloor>x + 1 / 2\<rfloor>"
    by simp
  moreover from assms(2) have "x + 1 / 2 < of_int 100 + 1" by simp
  then have "\<lfloor>x + 1 / 2\<rfloor> \<le> 100"
    by (simp only: floor_le_iff)
  ultimately show ?thesis
    by (simp only: Math_round_def)
qed

lemma percent_range:
  assumes "d \<le> n" and "0 < (n::nat)"
  shows "0 \<le> Math_round (js_times (js_divide (of_nat d) (of_nat n)) 100)
         \<and> Math_round (js_times (js_divide (of_nat d) (of_nat n)) 100) \<le> 100"
proof -
  let ?q = "js_divide (of_nat d) (of_nat n)"
  have "(of_nat d :: rat) / of_nat n \<le> 1"
    using assms by (simp add: divide_le_eq_1)
  moreover have "0 \<le> (of_nat d :: rat) / of_nat n"
    by simp
  ultimately have q: "0 \<le> ?q" "?q \<le> 1"
    unfolding js_divide_def by (simp_all only: to_double_nonneg to_double_le_1)
  from q(2) have "?q * 100 \<le> 1 * 100"
    by (rule mult_right_mono) simp
  then have hi: "?q * 100 \<le> 100" by (simp only: mult_1)
  from q(1) have lo: "0 \<le> ?q * 100" by simp
  have "0 \<le> js_times ?q 100" "js_times ?q 100 \<le> 100"
    unfolding js_times_def using lo hi by (simp_all only: to_double_nonneg to_double_le_100)
  then show ?thesis
    by (rule Math_round_range)
qed

lemma count_where_le: "count_where col name ts \<le> length ts"
  by (simp add: count_where_def)

lemma count_where_three:
  assumes "a \<noteq> b" "a \<noteq> c" "b \<noteq> c"
  shows "count_where col a ts + count_where col b ts + count_where col c ts \<le> length ts"
  using assms by (induction ts) (auto simp: count_where_def)

lemma count_where_filter:
  "count_where col name (filter P ts) = length (filter (\<lambda>t. P t \<and> col t = Some (ascii name)) ts)"
  by (induction ts) (auto simp: count_where_def)

lemma summary_fields:
  "total (getProjectSummary db pid) = length (filter (\<lambda>t. t_project_id t = pid) (tasks db))"
  "deployed (getProjectSummary db pid) = count_where t_status ''deployed'' (filter (\<lambda>t. t_project_id t = pid) (tasks db))"
  "developed (getProjectSummary db pid) = count_where t_status ''developed'' (filter (\<lambda>t. t_project_id t = pid) (tasks db))"
  "tested (getProjectSummary db pid) = count_where t_status ''tested'' (filter (\<lambda>t. t_project_id t = pid) (tasks db))"
  "completion_percentage (getProjectSummary db pid) =
     (if 0 < total (getProjectSummary db pid)
      then Math_round (js_times (js_divide (of_nat (deployed (getProjectSummary db pid)))
                                   (of_nat (total (getProjectSummary db pid)))) 100)
      else 0)"
  "progress_percentage (getProjectSummary db pid) =
     (if 0 < total (getProjectSummary db pid)
      then Math_round (js_times (js_divide
              (of_nat (developed (getProjectSummary db pid) + tested (getProjectSummary db pid)
                 + deployed (getProjectSummary db pid)))
              (of_nat (total (getProjectSummary db pid)))) 100)
      else 0)"
  by (simp_all add: getProjectSummary_def Let_def)

lemma summary_ranges:
  "0 \<le> completion_percentage (getProjectSummary db pid)"
  "completion_percentage (getProjectSummary db pid) \<le> 100"
  "0 \<le> progress_percentage (getProjectSummary db pid)"
  "progress_percentage (getProjectSummary db pid) \<le> 100"
proof -
  let ?rows = "filter (\<lambda>t. t_project_id t = pid) (tasks db)"
  let ?s = "getProjectSummary db pid"
  have d: "deployed ?s \<le> total ?s"
    by (simp only: summary_fields count_where_le)
  have p: "developed ?s + tested ?s + deployed ?s \<le> total ?s"
    by (simp only: summary_fields) (rule count_where_three, simp_all)
  show "0 \<le> completion_percentage ?s" "completion_percentage ?s \<le> 100"
    using percent_range [OF d] by (simp_all only: summary_fields(5) split: if_splits) auto
  show "0 \<le> progress_percentage ?s" "progress_percentage ?s \<le> 100"
    using percent_range [OF p] by (simp_all only: summary_fields(6) split: if_splits) auto
qed

lemma tool_getProjectSummary_found:
  assumes "js_get a ''project_id'' = Some (JNum (of_nat pid))" and "0 < pid"
    and "getProject db pid = Some p"
  shows "tool_getProjectSummary db now (Some a)
           = (Inr (ProjectSummary (p_name p) pid (getProjectSummary db pid)), db)"
proof -
  from assms(1) have "a \<noteq> JNull" by auto
  then have d: "destructure (Some a) = Inr a" by (cases a) auto
  have v: "validateId (js_get a ''project_id'') ''Project ID'' = Inr ()"
    unfolding assms(1) by (rule validateId_of_nat [OF assms(2)])
  have i: "id_of (js_get a ''project_id'') = pid"
    unfolding assms(1) by simp
  show ?thesis
    by (simp add: tool_getProjectSummary_def d v i assms(3))
qed

lemma percent_1_2: "Math_round (js_times (js_divide 1 2) 100) = 50"
proof -
  have 1: "to_double (1 / 2) = 1 / 2"
    by (subst to_double_eval [where k = "- 1"])
       (simp_all add: power_int_def round_half_even_int_numeral)
  have "to_double (of_nat 50) = of_nat 50"
    by (rule to_double_of_nat) simp
  then have 2: "to_double 50 = 50"
    by simp
  have 3: "(1 / 2 * 100 :: rat) = 50"
    by simp
  show ?thesis
    unfolding js_divide_def js_times_def 1 3 2 by (rule Math_round_int_numeral)
qed

lemma percent_23_40: "Math_round (js_times (js_divide 23 40) 100) = 57"
proof -
  have 1: "to_double (23 / 40) = 2589569785738035 / 4503599627370496"
    by (subst to_double_eval [where k = "- 1"])
       (simp_all add: power_int_def round_half_even_numeral round_div_def Let_def)
  show ?thesis
    unfolding js_divide_def js_times_def 1
    by (subst to_double_eval [where k = 5])
       (simp_all add: power_int_def round_half_even_numeral round_div_def Let_def Math_round_numeral)
qed

text \<open>
  Claim C7, as the code has it. In the summary of a project, \<open>total\<close> is the number of
  tasks of the project and \<open>deployed\<close>, \<open>developed\<close>, \<open>tested\<close> count its tasks of that
  status; the completion percentage is \<open>Math.round\<close> of the share of deployed tasks times
  100, and the progress percentage that of the share of developed, tested and deployed
  tasks, where the quotient and the product are those of doubles, each rounded to the
  nearest double; both are 0 when the project has no task, and both lie between 0 and
  100. For an existing project, \<open>get_project_summary\<close> returns this summary with the name
  and id of the project.
\<close>

theorem C7_project_summary:
  assumes "s = getProjectSummary db pid"
  shows "total s = length (filter (\<lambda>t. t_project_id t = pid) (tasks db))
    \<and> deployed s = length (filter (\<lambda>t. t_project_id t = pid \<and> t_status t = Some (ascii ''deployed'')) (tasks db))
    \<and> developed s = length (filter (\<lambda>t. t_project_id t = pid \<and> t_status t = Some (ascii ''developed'')) (tasks db))
    \<and> tested s = length (filter (\<lambda>t. t_project_id t = pid \<and> t_status t = Some (ascii ''tested'')) (tasks db))
    \<and> completion_percentage s
        = (if total s = 0 then 0
           else Math_round (js_times (js_divide (of_nat (deployed s)) (of_nat (total s))) 100))
    \<and> progress_percentage s
        = (if total s = 0 then 0
           else Math_round (js_times (js_divide (of_nat (developed s + tested s + deployed s))
                                        (of_nat (total s))) 100))
    \<and> 0 \<le> completion_percentage s \<and> completion_percentage s \<le> 100
    \<and> 0 \<le> progress_percentage s \<and> progress_percentage s \<le> 100
    \<and> (\<forall>a p. js_get a ''project_id'' = Some (JNum (of_nat pid)) \<and> 0 < pid \<and> getProject db pid = Some p
          \<longrightarrow> tool_getProjectSummary db now (Some a) = (Inr (ProjectSummary (p_name p) pid s), db))"
proof -
  have 1: "total s = length (filter (\<lambda>t. t_project_id t = pid) (tasks db))"
    unfolding assms by (rule summary_fields)
  have 2: "deployed s = length (filter (\<lambda>t. t_project_id t = pid \<and> t_status t = Some (ascii ''deployed'')) (tasks db))"
    unfolding assms by (simp only: summary_fields count_where_filter)
  have 3: "developed s = length (filter (\<lambda>t. t_project_id t = pid \<and> t_status t = Some (ascii ''developed'')) (tasks db))"
    unfolding assms by (simp only: summary_fields count_where_filter)
  have 4: "tested s = length (filter (\<lambda>t. t_project_id t = pid \<and> t_status t = Some (ascii ''tested'')) (tasks db))"
    unfolding assms by (simp only: summary_fields count_where_filter)
  have 5: "completion_percentage s
        = (if total s = 0 then 0
           else Math_round (js_times (js_divide (of_nat (deployed s)) (of_nat (total s))) 100))"
    unfolding assms by (subst summary_fields(5)) simp
  have 6: "progress_percentage s
        = (if total s = 0 then 0
           else Math_round (js_times (js_divide (of_nat (developed s + tested s + deployed s))
                                        (of_nat (total s))) 100))"
    unfolding assms by (subst summary_fields(6)) simp
  have 7: "0 \<le> completion_percentage s" "completion_percentage s \<le> 100"
      "0 \<le> progress_percentage s" "progress_percentage s \<le> 100"
    unfolding assms by (rule summary_ranges)+
  have 8: "tool_getProjectSummary db now (Some a) = (Inr (ProjectSummary (p_name p) pid s), db)"
    if "js_get a ''project_id'' = Some (JNum (of_nat pid))" "0 < pid" "getProject db pid = Some p"
    for a p
    unfolding assms by (rule tool_getProjectSummary_found [OF that])
  from 1 2 3 4 5 6 7 8 show ?thesis by blast
qed

theorem C7_project_summary_witness:
  "total (getProjectSummary db_two 1) = 2
   \<and> deployed (getProjectSummary db_two 1) = 1
   \<and> completion_percentage (getProjectSummary db_two 1) = 50
   \<and> progress_percentage (getProjectSummary db_two 1) = 50
   \<and> total (getProjectSummary db_two 3) = 0
   \<and> completion_percentage (getProjectSummary db_two 3) = 0
   \<and> tool_getProjectSummary db_two 9 (Some (JObj [(ascii ''project_id'', JNum 1)]))
       = (Inr (ProjectSummary (ascii ''Smoke Project'') 1 (getProjectSummary db_two 1)), db_two)"
proof -
  note c = C7_project_summary [OF refl, of db_two 1 9]
  note e = C7_project_summary [OF refl, of db_two 3 9]
  have l: "length (filter (\<lambda>t. t_project_id t = 1) (tasks db_two)) = 2"
      "length (filter (\<lambda>t. t_project_id t = 1 \<and> t_status t = Some (ascii ''deployed'')) (tasks db_two)) = 1"
      "length (filter (\<lambda>t. t_project_id t = 1 \<and> t_status t = Some (ascii ''developed'')) (tasks db_two)) = 0"
      "length (filter (\<lambda>t. t_project_id t = 1 \<and> t_status t = Some (ascii ''tested'')) (tasks db_two)) = 0"
      "length (filter (\<lambda>t. t_project_id t = 3) (tasks db_two)) = 0"
    by (simp_all add: db_two_def)
  have t: "total (getProjectSummary db_two 1) = 2"
    using c [THEN conjunct1] l(1) by (simp only:)
  have d: "deployed (getProjectSummary db_two 1) = 1"
    using c [THEN conjunct2, THEN conjunct1] l(2) by (simp only:)
  have v: "developed (getProjectSummary db_two 1) = 0"
    using c [THEN conjunct2, THEN conjunct2, THEN conjunct1] l(3) by (simp only:)
  have u: "tested (getProjectSummary db_two 1) = 0"
    using c [THEN conjunct2, THEN conjunct2, THEN conjunct2, THEN conjunct1] l(4) by (simp only:)
  have t3: "total (getProjectSummary db_two 3) = 0"
    using e [THEN conjunct1] l(5) by (simp only:)
  have cp: "completion_percentage (getProjectSummary db_two 1) = 50"
    by (subst c [THEN conjunct2, THEN conjunct2, THEN conjunct2, THEN conjunct2, THEN conjunct1])
       (simp only: t d, simp add: percent_1_2)
  have pp: "progress_percentage (getProjectSummary db_two 1) = 50"
    by (subst c [THEN conjunct2, THEN conjunct2, THEN conjunct2, THEN conjunct2, THEN conjunct2, THEN conjunct1])
       (simp only: t d v u, simp add: percent_1_2)
  have cp3: "completion_percentage (getProjectSummary db_two 3) = 0"
    by (subst e [THEN conjunct2, THEN conjunct2, THEN conjunct2, THEN conjunct2, THEN conjunct1]) (simp only: t3, simp)
  have g: "js_get (JObj [(ascii ''project_id'', JNum 1)]) ''project_id'' = Some (JNum (of_nat 1))
             \<and> (0::nat) < 1
             \<and> getProject db_two 1 = Some \<lparr>p_id = 1, p_name = ascii ''Smoke Project'',
                   p_client = Some (ascii ''VSCode''),
                   p_description = None, p_created_at = 5, p_updated_at = 7\<rparr>"
    by (simp add: getProject_def db_two_def)
  have tl: "tool_getProjectSummary db_two 9 (Some (JObj [(ascii ''project_id'', JNum 1)]))
       = (Inr (ProjectSummary (ascii ''Smoke Project'') 1 (getProjectSummary db_two 1)), db_two)"
    using c [THEN conjunct2, THEN conjunct2, THEN conjunct2, THEN conjunct2, THEN conjunct2, THEN conjunct2, THEN conjunct2, THEN conjunct2, THEN conjunct2, THEN conjunct2, THEN spec, THEN spec, THEN mp, OF g] by simp
  from t d cp pp t3 cp3 tl show ?thesis
    by (intro conjI)
qed

text \<open>
  The claim as stated, with the percentage as the exactly rounded share, fails for 23
  deployed tasks of 40: the share is 57.5 percent, which rounds to 58, and the code returns
  57, because the quotient of the doubles 23 and 40 is a little less than 0.575 and its
  product with 100 a little less than 57.5.
\<close>

theorem C7_percentage_of_23_in_40:
  "total (getProjectSummary db_forty 1) = 40
   \<and> deployed (getProjectSummary db_forty 1) = 23
   \<and> completion_percentage (getProjectSummary db_forty 1) = 57
   \<and> round (of_nat (deployed (getProjectSummary db_forty 1))
              / of_nat (total (getProjectSummary db_forty 1)) * 100 :: rat) = 58
   \<and> fst (tool_getProjectSummary db_forty 9 (Some (JObj [(ascii ''project_id'', JNum 1)])))
       = Inr (ProjectSummary (ascii ''Smoke Project'') 1 (getProjectSummary db_forty 1))"
proof -
  have u: "[1..<41] = [1, 2, 3, 4, 5, 6, 7, 8, 9, 10, 11, 12, 13, 14, 15, 16, 17, 18, 19, 20,
                        21, 22, 23, 24, 25, 26, 27, 28, 29, 30, 31, 32, 33, 34, 35, 36, 37, 38,
                        39, 40 :: nat]"
    by code_simp
  have ts: "tasks db_forty = map task_forty [1, 2, 3, 4, 5, 6, 7, 8, 9, 10, 11, 12, 13, 14, 15, 16,
                        17, 18, 19, 20, 21, 22, 23, 24, 25, 26, 27, 28, 29, 30, 31, 32, 33, 34,
                        35, 36, 37, 38, 39, 40]"
    unfolding db_forty_def u by simp
  have t: "total (getProjectSummary db_forty 1) = 40"
    by (simp add: summary_fields(1) ts task_forty_def)
  have d: "deployed (getProjectSummary db_forty 1) = 23"
    by (simp add: summary_fields(2) count_where_def ts task_forty_def)
  have c: "completion_percentage (getProjectSummary db_forty 1) = 57"
    by (subst summary_fields(5)) (simp only: t d, simp add: percent_23_40)
  have r: "round (of_nat (deployed (getProjectSummary db_forty 1))
              / of_nat (total (getProjectSummary db_forty 1)) * 100 :: rat) = 58"
    unfolding t d by (simp add: round_def)
  have gp: "getProject db_forty 1
              = Some \<lparr>p_id = 1, p_name = ascii ''Smoke Project'', p_client = None,
                       p_description = None, p_created_at = 5, p_updated_at = 6\<rparr>"
    by (simp add: getProject_def db_forty_def)
  have gj: "js_get (JObj [(ascii ''project_id'', JNum 1)]) ''project_id'' = Some (JNum (of_nat 1))"
    by simp
  have g: "fst (tool_getProjectSummary db_forty 9 (Some (JObj [(ascii ''project_id'', JNum 1)])))
       = Inr (ProjectSummary (ascii ''Smoke Project'') 1 (getProjectSummary db_forty 1))"
    using tool_getProjectSummary_found [OF gj _ gp, of 9] by simp
  from t d c r g show ?thesis
    by (intro conjI)
qed

subsection \<open>Values outside the enumerated sets\<close>

lemma bad_status:
  "truthy (Some v) \<Longrightarrow> \<not> js_includes validStatuses (Some v) \<Longrightarrow>
   validateStatus (Some v) = Inl (if stringifiable v then InvalidStatus v else TypeError)"
  by (simp add: validateStatus_def)

lemma bad_priority:
  "truthy (Some v) \<Longrightarrow> \<not> js_includes validPriorities (Some v) \<Longrightarrow>
   validatePriority (Some v) = Inl (if stringifiable v then InvalidPriority v else TypeError)"
  by (simp add: validatePriority_def)

lemma falsy_status: "\<not> truthy (Some v) \<Longrightarrow> validateStatus (Some v) = Inr ()"
  by (simp add: validateStatus_def)

lemma falsy_priority: "\<not> truthy (Some v) \<Longrightarrow> validatePriority (Some v) = Inr ()"
  by (simp add: validatePriority_def)

lemma js_get_destructure: "js_get a k = Some v \<Longrightarrow> destructure (Some a) = Inr a"
  by (cases a) auto

text \<open>
  Claim C2 fails in the code. \<open>validateStatus\<close> and \<open>validatePriority\<close> are guarded by
  \<open>status && ...\<close> and test a value only when it is truthy, while \<open>updateTask\<close> copies
  every argument that is not \<open>undefined\<close> into the \<open>updates\<close>. The empty string as
  \<open>status\<close> is outside the six names, passes the validations of \<open>update_task\<close> and goes
  to the store, where the CHECK constraint of the column refuses it: the call ends with
  the error of the store, not with a validation error. \<open>null\<close> passes the validations
  too and is written as NULL.
\<close>

theorem C2_falsy_status_reaches_store:
  "js_get (JObj [(ascii ''id'', JNum 1), (ascii ''status'', JStr [])]) ''status'' = Some (JStr [])
   \<and> \<not> js_includes validStatuses (Some (JStr []))
   \<and> tool_checks ''update_task'' (JObj [(ascii ''id'', JNum 1), (ascii ''status'', JStr [])]) = Inr ()
   \<and> updates_of (JObj [(ascii ''id'', JNum 1), (ascii ''status'', JStr [])])
       = [(ascii ''status'', Some [])]
   \<and> updateTask db_two 9 1 [(ascii ''status'', Some [])]
       = (Inl (SqliteError (CheckFailed ''status'')), db_two)
   \<and> call_tool db_two 9 (Some (JStr (ascii ''update_task'')))
         (Some (JObj [(ascii ''id'', JNum 1), (ascii ''status'', JStr [])]))
       = (Inl (SqliteError (CheckFailed ''status'')), db_two)
   \<and> tool_checks ''update_task'' (JObj [(ascii ''id'', JNum 1), (ascii ''status'', JNull)]) = Inr ()
   \<and> fst (call_tool db_two 9 (Some (JStr (ascii ''update_task'')))
              (Some (JObj [(ascii ''id'', JNum 1), (ascii ''status'', JNull)])))
       = Inr (TaskUpdated 1)
   \<and> map t_status (tasks (snd (call_tool db_two 9 (Some (JStr (ascii ''update_task'')))
              (Some (JObj [(ascii ''id'', JNum 1), (ascii ''status'', JNull)])))))
       = [None, Some (ascii ''pending''), Some (ascii ''tested'')]"
  by (simp add: eval_defs tool_checks_def db_two_def)

subsection \<open>Ids that the store does not hold\<close>

lemma update_where_none: "\<forall>r\<in>set rs. \<not> P r \<Longrightarrow> update_where P f rs = Inr rs"
  by (induction rs) auto

lemma task_project_None: "task_project ts n = None \<longleftrightarrow> (\<forall>t\<in>set ts. t_id t \<noteq> n)"
  by (simp add: task_project_def find_None_iff2)

lemma updateTask_missing:
  assumes "task_project (tasks db) n = None"
  shows "updateTask db now n ups =
           (if filter (\<lambda>a. fst a \<in> set task_allowedFields) ups = [] then (Inl NoValidFields, db)
            else (Inr False, db))"
proof -
  from assms have no: "\<forall>t\<in>set (tasks db). \<not> t_id t = n"
    by (simp add: task_project_None)
  then have f: "filter (\<lambda>t. t_id t = n) (tasks db) = []"
    by (simp add: filter_empty_conv)
  show ?thesis
    by (simp add: updateTask_def Let_def update_where_none [OF no] f assms)
qed

lemma deleteTask_missing:
  assumes "task_project (tasks db) n = None"
  shows "deleteTask db now n = (False, db)"
proof -
  from assms have no: "\<forall>t\<in>set (tasks db). \<not> t_id t = n"
    by (simp add: task_project_None)
  then have f: "filter (\<lambda>t. t_id t = n) (tasks db) = []" "filter (\<lambda>t. t_id t \<noteq> n) (tasks db) = tasks db"
    by (simp_all add: filter_empty_conv)
  show ?thesis
    by (simp add: deleteTask_def Let_def f assms)
qed

lemma updates_of_allowed: "filter (\<lambda>a. fst a \<in> set task_allowedFields) (updates_of a) = updates_of a"
  by (rule filter_True) (auto simp: updates_of_def task_allowedFields_def split: option.splits)

lemma id_arg:
  assumes "v = Some (JNum (of_nat n))" and "0 < n"
  shows "validateId v f = Inr ()" and "id_of v = n"
  using assms validateId_of_nat [of n f] by simp_all

lemma tool_addTask_missing:
  assumes "js_get a ''project_id'' = Some (JNum (of_nat n))" and "0 < n" and "getProject db n = None"
  shows "tool_addTask db now (Some a)
           = (Inl (case addTask_checks a of Inl e \<Rightarrow> e | Inr u \<Rightarrow> ProjectNotFound n), db)"
proof -
  have d: "destructure (Some a) = Inr a" by (rule js_get_destructure [OF assms(1)])
  show ?thesis
  proof (cases "addTask_checks a")
    case (Inl e)
    with d show ?thesis by (simp add: tool_addTask_def)
  next
    case (Inr u)
    with d id_arg(2) [OF assms(1,2)] assms(3) show ?thesis
      by (simp add: tool_addTask_def)
  qed
qed

lemma tool_updateTask_missing:
  assumes "js_get a ''id'' = Some (JNum (of_nat n))" and "0 < n"
    and "task_project (tasks db) n = None"
  shows "tool_updateTask db now (Some a)
           = (Inl (case updateTask_checks a of
                     Inl e \<Rightarrow> e
                   | Inr u \<Rightarrow> if updates_of a = [] then NoValidFields else TaskNotFound n), db)"
proof -
  have d: "destructure (Some a) = Inr a" by (rule js_get_destructure [OF assms(1)])
  show ?thesis
  proof (cases "updateTask_checks a")
    case (Inl e)
    with d show ?thesis by (simp add: tool_updateTask_def)
  next
    case (Inr u)
    with d id_arg(2) [OF assms(1,2)] show ?thesis
      by (simp add: tool_updateTask_def updateTask_missing [OF assms(3)] updates_of_allowed)
  qed
qed

lemma tool_deleteTask_missing:
  assumes "js_get a ''id'' = Some (JNum (of_nat n))" and "0 < n"
    and "task_project (tasks db) n = None"
  shows "tool_deleteTask db now (Some a) = (Inl (TaskNotFound n), db)"
  using js_get_destructure [OF assms(1)] id_arg [OF assms(1,2)]
  by (simp add: tool_deleteTask_def deleteTask_missing [OF assms(3)])

lemma tool_deleteProject_missing:
  assumes "js_get a ''id'' = Some (JNum (of_nat n))" and "0 < n" and "getProject db n = None"
  shows "tool_deleteProject db now (Some a) = (Inl (ProjectNotFound n), db)"
  using js_get_destructure [OF assms(1)] id_arg [OF assms(1,2)] assms(3)
  by (simp add: tool_deleteProject_def)

lemma tool_getProjectSummary_missing:
  assumes "js_get a ''project_id'' = Some (JNum (of_nat n))" and "0 < n" and "getProject db n = None"
  shows "tool_getProjectSummary db now (Some a) = (Inl (ProjectNotFound n), db)"
  using js_get_destructure [OF assms(1)] id_arg [OF assms(1,2)] assms(3)
  by (simp add: tool_getProjectSummary_def)

lemma call_tools_same:
  assumes "\<forall>now. call_tool db now name args = (Inl e, db)"
  shows "call_tools db (map (\<lambda>t. (t, name, args)) ts) = (replicate (length ts) (Inl e), db)"
  using assms by (induction ts) simp_all

lemma missing_call:
  assumes "missing_reference db name a n"
  shows "call_tool db now (Some (JStr (ascii name))) (Some a)
           = (Inl (case tool_checks name a of
                     Inl e \<Rightarrow> e
                   | Inr u \<Rightarrow> if name = ''update_task'' \<and> updates_of a = [] then NoValidFields
                              else not_found name n), db)"
proof -
  from assms have n: "0 < n" by (simp add: missing_reference_def)
  from assms consider
      (add) "name = ''add_task''" "js_get a ''project_id'' = Some (JNum (of_nat n))" "getProject db n = None"
    | (upd) "name = ''update_task''" "js_get a ''id'' = Some (JNum (of_nat n))" "task_project (tasks db) n = None"
    | (del) "name = ''delete_task''" "js_get a ''id'' = Some (JNum (of_nat n))" "task_project (tasks db) n = None"
    | (delp) "name = ''delete_project''" "js_get a ''id'' = Some (JNum (of_nat n))" "getProject db n = None"
    | (sum) "name = ''get_project_summary''" "js_get a ''project_id'' = Some (JNum (of_nat n))" "getProject db n = None"
    unfolding missing_reference_def by (elim disjE conjE) simp_all
  then show ?thesis
  proof cases
    case add
    from tool_addTask_missing [OF add(2) n add(3), of now] add(1) show ?thesis
      by (simp add: call_tool_def tool_checks_def not_found_def split: sum.splits)
  next
    case upd
    from tool_updateTask_missing [OF upd(2) n upd(3), of now] upd(1) show ?thesis
      by (simp add: call_tool_def tool_checks_def not_found_def split: sum.splits)
  next
    case del
    from tool_deleteTask_missing [OF del(2) n del(3), of now] del(1) id_arg(1) [OF del(2) n]
    show ?thesis
      by (simp add: call_tool_def tool_checks_def not_found_def)
  next
    case delp
    from tool_deleteProject_missing [OF delp(2) n delp(3), of now] delp(1) id_arg(1) [OF delp(2) n]
    show ?thesis
      by (simp add: call_tool_def tool_checks_def not_found_def)
  next
    case sum
    from tool_getProjectSummary_missing [OF sum(2) n sum(3), of now] sum(1) id_arg(1) [OF sum(2) n]
    show ?thesis
      by (simp add: call_tool_def tool_checks_def not_found_def)
  qed
qed

text \<open>
  Claim C6, as the code has it. A call of \<open>add_task\<close>, \<open>update_task\<close>, \<open>delete_task\<close>,
  \<open>delete_project\<close> or \<open>get_project_summary\<close> that names a project or task missing from
  the store fails, with the same error at any time, and leaves the store as it was; so
  does every repetition of the call. The error is the error of the first validation of
  the handler that the arguments fail; when they pass, it is \<open>No valid fields to update\<close>
  for \<open>update_task\<close> without a field to update, and the not-found error of the tool in
  every other case.
\<close>

theorem C6_missing_id_fails:
  assumes "missing_reference db name a n"
  shows "\<exists>e. (\<forall>now. call_tool db now (Some (JStr (ascii name))) (Some a) = (Inl e, db))
            \<and> e = (case tool_checks name a of
                     Inl e' \<Rightarrow> e'
                   | Inr u \<Rightarrow> if name = ''update_task'' \<and> updates_of a = [] then NoValidFields
                              else not_found name n)
            \<and> (\<forall>ts. call_tools db (map (\<lambda>t. (t, Some (JStr (ascii name)), Some a)) ts)
                         = (replicate (length ts) (Inl e), db))"
proof -
  let ?e = "case tool_checks name a of
              Inl e' \<Rightarrow> e'
            | Inr u \<Rightarrow> if name = ''update_task'' \<and> updates_of a = [] then NoValidFields
                       else not_found name n"
  have e: "\<forall>now. call_tool db now (Some (JStr (ascii name))) (Some a) = (Inl ?e, db)"
    using missing_call [OF assms] by blast
  from call_tools_same [OF e] e show ?thesis
    by blast
qed

theorem C6_missing_id_fails_witness:
  "call_tool db_two 9 (Some (JStr (ascii ''delete_task''))) (Some (JObj [(ascii ''id'', JNum 99)]))
     = (Inl (TaskNotFound 99), db_two)
   \<and> call_tools db_two
        (map (\<lambda>t. (t, Some (JStr (ascii ''delete_task'')), Some (JObj [(ascii ''id'', JNum 99)])))
           [9, 10, 11])
     = (replicate (length [9, 10, 11 :: nat]) (Inl (TaskNotFound 99)), db_two)
   \<and> call_tool db_two 9 (Some (JStr (ascii ''update_task'')))
        (Some (JObj [(ascii ''id'', JNum 99), (ascii ''status'', JStr (ascii ''blocked''))]))
     = (Inl (TaskNotFound 99), db_two)
   \<and> call_tool db_two 9 (Some (JStr (ascii ''add_task'')))
        (Some (JObj [(ascii ''project_id'', JNum 99)]))
     = (Inl (RequiredString ''Description''), db_two)
   \<and> call_tool db_two 9 (Some (JStr (ascii ''get_project_summary'')))
        (Some (JObj [(ascii ''project_id'', JNum 99)]))
     = (Inl (ProjectNotFound 99), db_two)"
proof -
  let ?d = "JObj [(ascii ''id'', JNum 99)]"
  let ?u = "JObj [(ascii ''id'', JNum 99), (ascii ''status'', JStr (ascii ''blocked''))]"
  let ?a = "JObj [(ascii ''project_id'', JNum 99)]"
  have md: "missing_reference db_two ''delete_task'' ?d 99"
    by (simp add: missing_reference_def task_project_def db_two_def)
  have mu: "missing_reference db_two ''update_task'' ?u 99"
    by (simp add: missing_reference_def task_project_def db_two_def)
  have ma: "missing_reference db_two ''add_task'' ?a 99"
    by (simp add: missing_reference_def getProject_def db_two_def)
  have ms: "missing_reference db_two ''get_project_summary'' ?a 99"
    by (simp add: missing_reference_def getProject_def db_two_def)
  have cd: "(case tool_checks ''delete_task'' ?d of
               Inl e' \<Rightarrow> e'
             | Inr u \<Rightarrow> if ''delete_task'' = ''update_task'' \<and> updates_of ?d = [] then NoValidFields
                        else not_found ''delete_task'' 99) = TaskNotFound 99"
    by (simp add: tool_checks_def isInteger_def not_found_def)
  have cu: "(case tool_checks ''update_task'' ?u of
               Inl e' \<Rightarrow> e'
             | Inr u \<Rightarrow> if ''update_task'' = ''update_task'' \<and> updates_of ?u = [] then NoValidFields
                        else not_found ''update_task'' 99) = TaskNotFound 99"
    by (simp add: tool_checks_def eval_defs not_found_def)
  have ca: "(case tool_checks ''add_task'' ?a of
               Inl e' \<Rightarrow> e'
             | Inr u \<Rightarrow> if ''add_task'' = ''update_task'' \<and> updates_of ?a = [] then NoValidFields
                        else not_found ''add_task'' 99) = RequiredString ''Description''"
    by (simp add: tool_checks_def eval_defs not_found_def)
  have cs: "(case tool_checks ''get_project_summary'' ?a of
               Inl e' \<Rightarrow> e'
             | Inr u \<Rightarrow> if ''get_project_summary'' = ''update_task'' \<and> updates_of ?a = []
                        then NoValidFields
                        else not_found ''get_project_summary'' 99) = ProjectNotFound 99"
    by (simp add: tool_checks_def isInteger_def not_found_def)
  from C6_missing_id_fails [OF md] cd
  have d1: "call_tool db_two 9 (Some (JStr (ascii ''delete_task''))) (Some ?d) = (Inl (TaskNotFound 99), db_two)"
    and d2: "call_tools db_two (map (\<lambda>t. (t, Some (JStr (ascii ''delete_task'')), Some ?d)) [9, 10, 11])
               = (replicate (length [9, 10, 11 :: nat]) (Inl (TaskNotFound 99)), db_two)"
    by (simp_all only:) blast+
  from C6_missing_id_fails [OF mu] cu
  have u1: "call_tool db_two 9 (Some (JStr (ascii ''update_task''))) (Some ?u) = (Inl (TaskNotFound 99), db_two)"
    by (simp only:) blast
  from C6_missing_id_fails [OF ma] ca
  have a1: "call_tool db_two 9 (Some (JStr (ascii ''add_task''))) (Some ?a)
              = (Inl (RequiredString ''Description''), db_two)"
    by (simp only:) blast
  from C6_missing_id_fails [OF ms] cs
  have s1: "call_tool db_two 9 (Some (JStr (ascii ''get_project_summary''))) (Some ?a)
              = (Inl (ProjectNotFound 99), db_two)"
    by (simp only:) blast
  from d1 d2 u1 a1 s1 show ?thesis
    by (intro conjI)
qed

text \<open>
  The claim as stated fails for \<open>update_task\<close> with an id and no other argument: the
  store refuses the empty update before it looks for the task, and the error is
  \<open>No valid fields to update\<close>, not a not-found error.
\<close>

theorem C6_update_without_fields_not_a_not_found:
  "missing_reference db_two ''update_task'' (JObj [(ascii ''id'', JNum 99)]) 99
   \<and> tool_checks ''update_task'' (JObj [(ascii ''id'', JNum 99)]) = Inr ()
   \<and> call_tool db_two 9 (Some (JStr (ascii ''update_task''))) (Some (JObj [(ascii ''id'', JNum 99)]))
       = (Inl NoValidFields, db_two)
   \<and> NoValidFields \<noteq> not_found ''update_task'' 99"
  by (simp add: eval_defs tool_checks_def missing_reference_def not_found_def db_two_def)

subsection \<open>Malformed lines\<close>

lemma process_lines_malformed:
  assumes "split_line buf = Some (l, rest)" and "trim l \<noteq> []" and "parse (trim l) = None"
  shows "process_lines parse now db buf = (db, rest, [sendError SyntaxError JNull])"
  by (subst process_lines.simps) (simp add: assms)

lemma process_lines_answered:
  assumes "split_line buf = Some (l, rest)" and "trim l \<noteq> []" and "parse (trim l) = Some m"
    and "handleMessage db now m = Inr (resp, db')"
  shows "process_lines parse now db buf =
           (case process_lines parse now db' rest of (db'', buf', out) \<Rightarrow> (db'', buf', resp # out))"
  by (subst process_lines.simps) (simp add: assms)

lemma process_lines_blank:
  assumes "split_line buf = Some (l, rest)" and "trim l = []"
  shows "process_lines parse now db buf = process_lines parse now db rest"
  by (subst process_lines.simps) (simp add: assms)

lemma process_lines_no_newline:
  assumes "split_line buf = None"
  shows "process_lines parse now db buf = (db, buf, [])"
  by (subst process_lines.simps) (simp add: assms)

text \<open>
  What the loop writes while it handles its first \<open>k\<close> lines is the beginning of what
  it writes in all.
\<close>

lemma after_lines_process:
  assumes "after_lines parse now k db buf = Some (db_i, buf_i, pre)"
  shows "process_lines parse now db buf
           = (case process_lines parse now db_i buf_i of (d, b, out) \<Rightarrow> (d, b, pre @ out))"
  using assms
proof (induction k arbitrary: db buf pre)
  case 0
  then show ?case by (simp split: prod.splits)
next
  case (Suc k)
  from Suc.prems obtain l rest where s: "split_line buf = Some (l, rest)"
    by (cases "split_line buf") auto
  show ?case
  proof (cases "trim l = []")
    case True
    with Suc.prems s have "after_lines parse now k db rest = Some (db_i, buf_i, pre)"
      by simp
    from Suc.IH [OF this] show ?thesis
      by (simp only: process_lines_blank [where parse = parse, OF s True])
  next
    case False
    with Suc.prems s obtain m where m: "parse (trim l) = Some m"
      by (cases "parse (trim l)") auto
    from Suc.prems s False m obtain resp db1 where h: "handleMessage db now m = Inr (resp, db1)"
      by (cases "handleMessage db now m") auto
    from Suc.prems s False m h obtain pre1 where
      a: "after_lines parse now k db1 rest = Some (db_i, buf_i, pre1)" and p: "pre = resp # pre1"
      by (cases "after_lines parse now k db1 rest") auto
    from Suc.IH [OF a] show ?thesis
      by (simp add: process_lines_answered [where parse = parse, OF s False m h] p split: prod.splits)
  qed
qed

text \<open>
  Claim C1, as the code has it. Whenever the loop of the \<open>data\<close> handler, after any
  number of lines that it has handled, comes to a line that is not blank and that
  \<open>JSON.parse\<close> refuses, the handler writes, after the envelopes of those lines, an
  error envelope for that line, with the id \<open>null\<close> and the code \<open>-32000\<close>. A blank
  line is passed over without an envelope. The handler returns: the process does not
  crash.
\<close>

theorem C1_malformed_line_gets_error_envelope:
  assumes "after_lines parse now k db buf = Some (db_i, buf_i, pre)"
    and "split_line buf_i = Some (l, rest)" and "trim l \<noteq> []" and "parse (trim l) = None"
  shows "(\<exists>db' buf' out'. process_lines parse now db buf
                             = (db', buf', pre @ sendError SyntaxError JNull # out'))
     \<and> sendError SyntaxError JNull
         = \<lparr>r_jsonrpc = ''2.0'', r_id = Some JNull, r_result = None,
            r_error = Some (- 32000, SyntaxError)\<rparr>
     \<and> (inputBuffer srv @ chunk = buf \<and> s_db srv = db \<longrightarrow>
          (\<exists>srv' out'. on_data parse now srv chunk
                          = (srv', pre @ sendError SyntaxError JNull # out')))
     \<and> (split_line buf0 = Some (l0, rest0) \<and> trim l0 = [] \<longrightarrow>
          process_lines parse now db0 buf0 = process_lines parse now db0 rest0)"
proof -
  have p: "process_lines parse now db buf = (db_i, rest, pre @ [sendError SyntaxError JNull])"
    by (simp add: after_lines_process [OF assms(1)]
        process_lines_malformed [where parse = parse, OF assms(2,3,4)])
  have 1: "\<exists>db' buf' out'. process_lines parse now db buf
                             = (db', buf', pre @ sendError SyntaxError JNull # out')"
    using p by simp
  have 2: "sendError SyntaxError JNull
         = \<lparr>r_jsonrpc = ''2.0'', r_id = Some JNull, r_result = None,
            r_error = Some (- 32000, SyntaxError)\<rparr>"
    by (simp add: sendError_def)
  have 3: "\<exists>srv' out'. on_data parse now srv chunk = (srv', pre @ sendError SyntaxError JNull # out')"
    if "inputBuffer srv @ chunk = buf \<and> s_db srv = db"
    using that by (simp add: on_data_def p)
  have 4: "process_lines parse now db0 buf0 = process_lines parse now db0 rest0"
    if "split_line buf0 = Some (l0, rest0) \<and> trim l0 = []"
    by (rule process_lines_blank [where parse = parse, OF that [THEN conjunct1] that [THEN conjunct2]])
  from 1 2 3 4 show ?thesis by blast
qed

theorem C1_malformed_line_gets_error_envelope_witness:
  "(\<exists>srv' out'. on_data example_parse 9 \<lparr>s_db = db_two, inputBuffer = []\<rparr>
        (ascii ''{\"jsonrpc\":\"2.0\",\"id\":1,\"method\":\"initialize\"}'' @ 0x0A # ascii ''{oops'' @ [0x0A])
      = (srv', [handleInitialize (Some (JNum 1))] @ sendError SyntaxError JNull # out'))
   \<and> (\<exists>srv' out'. on_data example_parse 9 \<lparr>s_db = db_two, inputBuffer = ascii ''{oo''\<rparr>
        (ascii ''ps'' @ [0x0A])
      = (srv', [] @ sendError SyntaxError JNull # out'))
   \<and> r_id (sendError SyntaxError JNull) = Some JNull
   \<and> process_lines example_parse 9 db_two ([0x20, 0xA0, 0x0D, 0x0A] @ ascii ''{oops'' @ [0x0A])
       = process_lines example_parse 9 db_two (ascii ''{oops'' @ [0x0A])"
proof -
  let ?line = "ascii ''{\"jsonrpc\":\"2.0\",\"id\":1,\"method\":\"initialize\"}''"
  let ?m = "JObj [(ascii ''jsonrpc'', JStr (ascii ''2.0'')), (ascii ''id'', JNum 1),
                  (ascii ''method'', JStr (ascii ''initialize''))]"
  let ?srv = "\<lparr>s_db = db_two, inputBuffer = []\<rparr>"
  let ?srv2 = "\<lparr>s_db = db_two, inputBuffer = ascii ''{oo''\<rparr>"
  have t1: "trim ?line = ?line"
    by (rule trim_ascii) simp_all
  have t2: "trim (ascii ''{oops'') = ascii ''{oops''"
    by (rule trim_ascii) simp_all
  have s1: "split_line (?line @ 0x0A # ascii ''{oops'' @ [0x0A]) = Some (?line, ascii ''{oops'' @ [0x0A])"
    by (rule split_line_ascii) simp
  have s2: "split_line (ascii ''{oops'' @ [0x0A]) = Some (ascii ''{oops'', [])"
    by (rule split_line_ascii) simp
  have p1: "example_parse ?line = Some ?m"
    by (simp add: example_parse_def example_lines_def)
  have h1: "handleMessage db_two 9 ?m = Inr (handleInitialize (Some (JNum 1)), db_two)"
    by (simp add: handleMessage_def default_to_def)
  have a1: "after_lines example_parse 9 1 db_two (?line @ 0x0A # ascii ''{oops'' @ [0x0A])
              = Some (db_two, ascii ''{oops'' @ [0x0A], [handleInitialize (Some (JNum 1))])"
    by (simp add: s1 t1 p1 h1)
  have a0: "after_lines example_parse 9 0 db_two (ascii ''{oops'' @ [0x0A])
              = Some (db_two, ascii ''{oops'' @ [0x0A], [])"
    by simp
  have n: "trim (ascii ''{oops'') \<noteq> []"
    by (simp add: t2)
  have e: "example_parse (trim (ascii ''{oops'')) = None"
    by (simp add: t2 example_parse_def example_lines_def)
  have b1: "inputBuffer ?srv @ (?line @ 0x0A # ascii ''{oops'' @ [0x0A])
              = ?line @ 0x0A # ascii ''{oops'' @ [0x0A] \<and> s_db ?srv = db_two"
    by simp
  have b2: "inputBuffer ?srv2 @ (ascii ''ps'' @ [0x0A]) = ascii ''{oops'' @ [0x0A] \<and> s_db ?srv2 = db_two"
    by (simp add: ascii_append [symmetric])
  note c1 = C1_malformed_line_gets_error_envelope [where parse = example_parse, OF a1 s2 n e]
  note c2 = C1_malformed_line_gets_error_envelope [where parse = example_parse, OF a0 s2 n e]
  have g1: "\<exists>srv' out'. on_data example_parse 9 ?srv (?line @ 0x0A # ascii ''{oops'' @ [0x0A])
      = (srv', [handleInitialize (Some (JNum 1))] @ sendError SyntaxError JNull # out')"
    by (rule c1 [THEN conjunct2, THEN conjunct2, THEN conjunct1, THEN mp, OF b1])
  have g2: "\<exists>srv' out'. on_data example_parse 9 ?srv2 (ascii ''ps'' @ [0x0A])
      = (srv', [] @ sendError SyntaxError JNull # out')"
    by (rule c2 [THEN conjunct2, THEN conjunct2, THEN conjunct1, THEN mp, OF b2])
  have g3: "r_id (sendError SyntaxError JNull) = Some JNull"
    by (simp add: c1 [THEN conjunct2, THEN conjunct1])
  have b4: "split_line ([0x20, 0xA0, 0x0D, 0x0A] @ ascii ''{oops'' @ [0x0A])
              = Some ([0x20, 0xA0, 0x0D], ascii ''{oops'' @ [0x0A])
            \<and> trim [0x20, 0xA0, 0x0D] = []"
    by (simp add: trim_def is_space_def)
  have g4: "process_lines example_parse 9 db_two ([0x20, 0xA0, 0x0D, 0x0A] @ ascii ''{oops'' @ [0x0A])
       = process_lines example_parse 9 db_two (ascii ''{oops'' @ [0x0A])"
    by (rule c1 [THEN conjunct2, THEN conjunct2, THEN conjunct2, THEN mp, OF b4])
  from g1 g2 g3 g4 show ?thesis
    by (intro conjI)
qed

text \<open>
  The claim as stated fails: the malformed line \<open>{oops\<close> is answered with an error
  envelope.
\<close>

theorem C1_malformed_line_is_answered:
  "example_parse (ascii ''{oops'') = None
   \<and> on_data example_parse 9 \<lparr>s_db = db_two, inputBuffer = []\<rparr> (ascii ''{oops'' @ [0x0A])
     = (\<lparr>s_db = db_two, inputBuffer = []\<rparr>,
        [\<lparr>r_jsonrpc = ''2.0'', r_id = Some JNull, r_result = None,
          r_error = Some (- 32000, SyntaxError)\<rparr>])"
proof -
  have t: "trim (ascii ''{oops'') = ascii ''{oops''"
    by (rule trim_ascii) simp_all
  have e: "example_parse (ascii ''{oops'') = None" "example_parse (trim (ascii ''{oops'')) = None"
    "trim (ascii ''{oops'') \<noteq> []"
    by (simp_all add: t example_parse_def example_lines_def)
  have s1: "split_line ([] @ ascii ''{oops'' @ [0x0A]) = Some (ascii ''{oops'', [])"
    unfolding append_Nil by (rule split_line_ascii) simp
  have a: "on_data example_parse 9 \<lparr>s_db = db_two, inputBuffer = []\<rparr> (ascii ''{oops'' @ [0x0A])
     = (\<lparr>s_db = db_two, inputBuffer = []\<rparr>, [sendError SyntaxError JNull])"
    unfolding on_data_def
    by (simp only: server.simps process_lines_malformed [where parse = example_parse, OF s1 e(3,2)] prod.case)
  from e(1) a show ?thesis
    by (simp only: sendError_def)
qed

subsection \<open>Every tool call is answered\<close>

text \<open>
  \<open>handleToolCall\<close> itself answers every call whose \<open>params\<close> is an object: it returns
  one envelope with the id of the request, which holds either a result or an error of
  code \<open>-32000\<close>.
\<close>

lemma handleToolCall_object:
  "\<exists>resp db'. handleToolCall db now (Some (JObj kvs)) rid = Inr (resp, db')
      \<and> r_jsonrpc resp = ''2.0'' \<and> r_id resp = rid
      \<and> ((\<exists>b. r_result resp = Some b) \<and> r_error resp = None
          \<or> r_result resp = None \<and> (\<exists>e. r_error resp = Some (- 32000, e)))"
proof (cases "call_tool db now (js_get (JObj kvs) ''name'') (js_get (JObj kvs) ''arguments'')")
  case (Pair r db')
  then show ?thesis
    by (cases r) (simp_all add: handleToolCall_def)
qed

text \<open>
  Claim C10 fails in the code. The \<open>catch\<close> of the \<open>data\<close> handler is around the
  \<open>while\<close> loop, not inside it, so a line that throws ends the loop. A \<open>tools/call\<close>
  request with a \<open>params\<close> object that stands behind the malformed line \<open>{oops\<close> in the
  same chunk is not handed to \<open>handleToolCall\<close>: the only envelope written is the error
  for the malformed line, with the id \<open>null\<close>, and the request stays in the buffer
  without an answer. The same request alone in a chunk is answered with its id.
\<close>

theorem C10_request_behind_malformed_line_unanswered:
  "example_parse (ascii ''{\"id\":2,\"method\":\"tools/call\",\"params\":{\"name\":\"no_such_tool\"}}'')
     = Some (JObj [(ascii ''id'', JNum 2), (ascii ''method'', JStr (ascii ''tools/call'')),
                   (ascii ''params'', JObj [(ascii ''name'', JStr (ascii ''no_such_tool''))])])
   \<and> on_data example_parse 9 \<lparr>s_db = db_two, inputBuffer = []\<rparr>
        (ascii ''{oops'' @ 0x0A
           # ascii ''{\"id\":2,\"method\":\"tools/call\",\"params\":{\"name\":\"no_such_tool\"}}'' @ [0x0A])
     = (\<lparr>s_db = db_two,
          inputBuffer =
            ascii ''{\"id\":2,\"method\":\"tools/call\",\"params\":{\"name\":\"no_such_tool\"}}'' @ [0x0A]\<rparr>,
        [\<lparr>r_jsonrpc = ''2.0'', r_id = Some JNull, r_result = None,
          r_error = Some (- 32000, SyntaxError)\<rparr>])
   \<and> on_data example_parse 9 \<lparr>s_db = db_two, inputBuffer = []\<rparr>
        (ascii ''{\"id\":2,\"method\":\"tools/call\",\"params\":{\"name\":\"no_such_tool\"}}'' @ [0x0A])
     = (\<lparr>s_db = db_two, inputBuffer = []\<rparr>,
        [\<lparr>r_jsonrpc = ''2.0'', r_id = Some (JNum 2), r_result = None,
          r_error = Some (- 32000, UnknownTool (Some (JStr (ascii ''no_such_tool''))))\<rparr>])"
proof -
  let ?line = "ascii ''{\"id\":2,\"method\":\"tools/call\",\"params\":{\"name\":\"no_such_tool\"}}''"
  let ?m = "JObj [(ascii ''id'', JNum 2), (ascii ''method'', JStr (ascii ''tools/call'')),
                  (ascii ''params'', JObj [(ascii ''name'', JStr (ascii ''no_such_tool''))])]"
  let ?resp = "\<lparr>r_jsonrpc = ''2.0'', r_id = Some (JNum 2), r_result = None,
          r_error = Some (- 32000, UnknownTool (Some (JStr (ascii ''no_such_tool''))))\<rparr>"
  have t: "trim (ascii ''{oops'') = ascii ''{oops''"
    by (rule trim_ascii) simp_all
  have e: "trim (ascii ''{oops'') \<noteq> []" "example_parse (trim (ascii ''{oops'')) = None"
    by (simp_all add: t example_parse_def example_lines_def)
  have tl: "trim ?line = ?line"
    by (rule trim_ascii) simp_all
  have p: "example_parse ?line = Some ?m"
    by (simp add: example_parse_def example_lines_def)
  have s2: "split_line ([] @ ascii ''{oops'' @ 0x0A # ?line @ [0x0A]) = Some (ascii ''{oops'', ?line @ [0x0A])"
    unfolding append_Nil by (rule split_line_ascii) simp
  have s3: "split_line ([] @ ?line @ [0x0A]) = Some (?line, [])"
    unfolding append_Nil by (rule split_line_ascii) simp
  have n: "trim ?line \<noteq> []" "example_parse (trim ?line) = Some ?m"
    by (simp_all add: tl p)
  have h: "handleMessage db_two 9 ?m = Inr (?resp, db_two)"
    by (simp add: handleMessage_def default_to_def handleToolCall_def call_tool_def
        stringifiable_opt_def)
  have r: "process_lines example_parse 9 db_two [] = (db_two, [], [])"
    by (rule process_lines_no_newline) simp
  have b: "on_data example_parse 9 \<lparr>s_db = db_two, inputBuffer = []\<rparr>
        (ascii ''{oops'' @ 0x0A # ?line @ [0x0A])
     = (\<lparr>s_db = db_two, inputBuffer = ?line @ [0x0A]\<rparr>, [sendError SyntaxError JNull])"
    unfolding on_data_def
    by (simp only: server.simps process_lines_malformed [where parse = example_parse, OF s2 e] prod.case)
  have c: "on_data example_parse 9 \<lparr>s_db = db_two, inputBuffer = []\<rparr> (?line @ [0x0A])
     = (\<lparr>s_db = db_two, inputBuffer = []\<rparr>, [?resp])"
    unfolding on_data_def
    by (simp only: server.simps process_lines_answered [where parse = example_parse, OF s3 n h] r prod.case)
  from p b c show ?thesis
    by (simp only: sendError_def)
qed

subsection \<open>Request correlation in the test client\<close>

lemma key_of_nat: "key_of (Some (JNum (of_nat k))) = Some k"
  by (simp add: isInteger_def)

lemma key_of_Some:
  assumes "key_of v = Some k"
  shows "v = Some (JNum (of_nat k))"
proof -
  from assms obtain q where v: "v = Some (JNum q)" and q: "0 \<le> q" "isInteger q" and k: "k = nat \<lfloor>q\<rfloor>"
    by (cases v rule: key_of.cases) (auto split: if_splits)
  from q(2) have e: "of_int \<lfloor>q\<rfloor> = q" unfolding isInteger_def .
  have "0 \<le> \<lfloor>q\<rfloor>"
  proof -
    from q(1) e have "(0::rat) \<le> of_int \<lfloor>q\<rfloor>" by (simp only:)
    then show ?thesis by (simp only: of_int_0_le_iff)
  qed
  then have "(of_nat (nat \<lfloor>q\<rfloor>) :: rat) = of_int \<lfloor>q\<rfloor>"
    by (rule of_nat_nat)
  with e have "(of_nat k :: rat) = q"
    by (simp only: k)
  with v show ?thesis by (simp only:)
qed

lemma client_message_matched:
  assumes "client_ok c" and "k \<in> set (pending c)" and "js_get m ''id'' = Some (JNum (of_nat k))"
  shows "client_message c m =
           c\<lparr>pending := filter (\<lambda>j. j \<noteq> k) (pending c),
             timers := (timers c)(k := None),
             settled := (settled c)(k \<mapsto> Resolved m)\<rparr>"
proof -
  from assms(1,2) have k: "0 < k" "settled c k = None"
    by (auto simp: client_ok_def list_all_iff)
  have d: "destructure (Some m) = Inr m"
    by (rule js_get_destructure [OF assms(3)])
  show ?thesis
    using k assms(2)
    by (simp add: client_message_def d assms(3) key_of_nat settle_def del: key_of.simps)
qed

lemma client_message_unmatched:
  assumes "list_all (\<lambda>k. js_get m ''id'' \<noteq> Some (JNum (of_nat k))) (pending c)"
  shows "client_message c m = c"
proof (cases "destructure (Some m)")
  case (Inl e)
  then show ?thesis by (simp add: client_message_def)
next
  case (Inr m')
  then have m': "m' = m" by (cases m) auto
  show ?thesis
  proof (cases "key_of (js_get m ''id'')")
    case None
    with Inr m' show ?thesis by (simp add: client_message_def)
  next
    case (Some k)
    from key_of_Some [OF Some] assms have "k \<notin> set (pending c)"
      by (auto simp: list_all_iff)
    with Inr m' Some show ?thesis by (simp add: client_message_def)
  qed
qed

lemma client_timeout_fires:
  assumes "client_ok c" and "k \<in> set (pending c)" and "timers c k = Some (d, meth)" and "d \<le> now"
  shows "client_timeout now c k =
           c\<lparr>timers := (timers c)(k := None),
             pending := filter (\<lambda>j. j \<noteq> k) (pending c),
             settled := (settled c)(k \<mapsto> Rejected (Timeout k meth))\<rparr>"
proof -
  from assms(1,2) have "settled c k = None"
    by (auto simp: client_ok_def list_all_iff)
  with assms(3,4) show ?thesis
    by (simp add: client_timeout_def settle_def)
qed

lemma client_timeout_early:
  "timers c k = Some (d, meth) \<Longrightarrow> now < d \<Longrightarrow> client_timeout now c k = c"
  by (simp add: client_timeout_def)

lemma late_response_dropped:
  assumes "client_ok c" and "k \<in> set (pending c)" and "timers c k = Some (d, meth)" and "d \<le> now"
    and "js_get m ''id'' = Some (JNum (of_nat k))"
  shows "client_message (client_timeout now c k) m = client_timeout now c k"
proof -
  have "key_of (js_get m ''id'') = Some k"
    unfolding assms(5) by (rule key_of_nat)
  moreover have "k \<notin> set (pending (client_timeout now c k))"
    by (simp add: client_timeout_fires [OF assms(1-4)])
  ultimately show ?thesis
    by (simp add: client_message_def js_get_destructure [OF assms(5)])
qed

lemma fold_settle:
  "fold (\<lambda>k s. settle k (f k) s) ks s j = (if j \<in> set ks \<and> s j = None then Some (f j) else s j)"
  by (induction ks arbitrary: s) (auto simp: settle_def)

lemma client_exit_rejects:
  assumes "client_ok c"
  shows "pending (client_exit c code) = []"
    and "k \<in> set (pending c) \<Longrightarrow> settled (client_exit c code) k = Some (Rejected (ServerExited k code))"
    and "k \<notin> set (pending c) \<Longrightarrow> settled (client_exit c code) k = settled c k"
    and "timers (client_exit c code) k = (if k \<in> set (pending c) then None else timers c k)"
proof -
  show "pending (client_exit c code) = []"
    by (simp add: client_exit_def)
  show "settled (client_exit c code) k = Some (Rejected (ServerExited k code))" if "k \<in> set (pending c)"
  proof -
    from assms that have "settled c k = None"
      by (auto simp: client_ok_def list_all_iff)
    with that show ?thesis
      by (simp add: client_exit_def fold_settle)
  qed
  show "settled (client_exit c code) k = settled c k" if "k \<notin> set (pending c)"
    using that by (simp add: client_exit_def fold_settle)
  show "timers (client_exit c code) k = (if k \<in> set (pending c) then None else timers c k)"
    by (simp add: client_exit_def)
qed

lemma client_ok_new: "client_ok new_client" "nextId new_client = 1"
  by (simp_all add: client_ok_def new_client_def)

lemma client_call_props:
  assumes "client_ok c"
  shows "fst (client_call now c method params) = nextId c"
    and "nextId (snd (client_call now c method params)) = nextId c + 1"
    and "pending (snd (client_call now c method params)) = pending c @ [nextId c]"
    and "timers (snd (client_call now c method params)) (nextId c) = Some (now + REQUEST_TIMEOUT_MS, method)"
    and "written (snd (client_call now c method params))
           = written c @ [\<lparr>q_jsonrpc = ''2.0'', q_id = nextId c, q_method = method, q_params = params\<rparr>]"
    and "client_ok (snd (client_call now c method params))"
proof -
  from assms have fresh: "nextId c \<notin> set (pending c)"
    by (auto simp: client_ok_def list_all_iff)
  then have p: "pending_set (nextId c) (pending c) = pending c @ [nextId c]"
    by (simp add: pending_set_def)
  show "fst (client_call now c method params) = nextId c"
    "nextId (snd (client_call now c method params)) = nextId c + 1"
    "timers (snd (client_call now c method params)) (nextId c) = Some (now + REQUEST_TIMEOUT_MS, method)"
    "written (snd (client_call now c method params))
           = written c @ [\<lparr>q_jsonrpc = ''2.0'', q_id = nextId c, q_method = method, q_params = params\<rparr>]"
    by (simp_all add: client_call_def Let_def)
  show "pending (snd (client_call now c method params)) = pending c @ [nextId c]"
    by (simp add: client_call_def Let_def p)
  show "client_ok (snd (client_call now c method params))"
    using assms fresh by (auto simp: client_call_def Let_def p client_ok_def list_all_iff)
qed

lemma client_ok_message: "client_ok c \<Longrightarrow> client_ok (client_message c m)"
  by (auto simp: client_message_def client_ok_def list_all_iff settle_def
      split: sum.splits option.splits)

lemma client_ok_timeout: "client_ok c \<Longrightarrow> client_ok (client_timeout now c k)"
  by (auto simp: client_timeout_def client_ok_def list_all_iff settle_def
      split: option.splits prod.splits)

lemma client_ok_exit: "client_ok c \<Longrightarrow> client_ok (client_exit c code)"
  by (auto simp: client_exit_def client_ok_def fold_settle list_all_iff)

lemma nextId_events:
  "nextId (client_message c m) = nextId c"
  "nextId (client_timeout now c k) = nextId c"
  "nextId (client_exit c code) = nextId c"
  by (auto simp: client_message_def client_timeout_def client_exit_def
      split: sum.splits option.splits prod.splits)

lemma client_lines_one:
  assumes "split_line buf = Some (l, rest)" and "trim l \<noteq> []" and "split_line rest = None"
  shows "client_lines parse c buf
           = ((case parse (trim l) of None \<Rightarrow> c | Some message \<Rightarrow> client_message c message), rest)"
proof -
  have r: "client_lines parse c' rest = (c', rest)" for c'
    by (subst client_lines.simps) (simp add: assms(3))
  show ?thesis
    by (subst client_lines.simps) (simp add: assms(1,2) r)
qed

lemma client_data_one:
  assumes "split_line (stdoutBuffer c @ chunk) = Some (l, rest) \<and> trim l \<noteq> [] \<and> split_line rest = None"
  shows "client_data parse c chunk
           = (case parse (trim l) of None \<Rightarrow> c | Some message \<Rightarrow> client_message c message)
               \<lparr>stdoutBuffer := rest\<rparr>"
proof -
  from assms have a: "split_line (stdoutBuffer c @ chunk) = Some (l, rest)" "trim l \<noteq> []"
    "split_line rest = None"
    by simp_all
  show ?thesis
    by (simp add: client_data_def client_lines_one [where parse = parse, OF a])
qed

text \<open>
  Claim C8. In every state of the client that \<open>client_ok\<close> describes: the first id is 1
  and each call takes the next id, one more than the last, arms a timer due
  \<open>REQUEST_TIMEOUT_MS\<close> after the call and stores the entry; no other event changes the
  next id. A decoded message whose id is a pending key removes that entry, clears its
  timer and resolves its promise with the message, and nothing else changes; a message
  with any other id leaves the client as it is. A timer does not fire before it is due;
  when it fires the entry is removed and the promise is rejected with the timeout error,
  and a response with that id that comes later is dropped. When the server exits, every
  pending promise is rejected with the exit code and no entry is left, while the other
  promises keep their outcome. Each event leads to a state that \<open>client_ok\<close> describes.
\<close>

theorem C8_client_correlation:
  assumes "client_ok c"
  shows "nextId new_client = 1 \<and> client_ok new_client
    \<and> fst (client_call now c method params) = nextId c
    \<and> nextId (snd (client_call now c method params)) = nextId c + 1
    \<and> pending (snd (client_call now c method params)) = pending c @ [nextId c]
    \<and> timers (snd (client_call now c method params)) (nextId c)
        = Some (now + REQUEST_TIMEOUT_MS, method)
    \<and> client_ok (snd (client_call now c method params))
    \<and> nextId (client_message c m) = nextId c
    \<and> nextId (client_timeout now c k) = nextId c
    \<and> nextId (client_exit c code) = nextId c
    \<and> client_ok (client_message c m)
    \<and> client_ok (client_timeout now c k)
    \<and> client_ok (client_exit c code)
    \<and> (split_line (stdoutBuffer c @ chunk) = Some (l, rest) \<and> trim l \<noteq> [] \<and> split_line rest = None
         \<longrightarrow> client_data parse c chunk
              = (case parse (trim l) of None \<Rightarrow> c | Some message \<Rightarrow> client_message c message)
                  \<lparr>stdoutBuffer := rest\<rparr>)
    \<and> (k \<in> set (pending c) \<and> js_get m ''id'' = Some (JNum (of_nat k))
         \<longrightarrow> client_message c m
              = c\<lparr>pending := filter (\<lambda>j. j \<noteq> k) (pending c),
                  timers := (timers c)(k := None),
                  settled := (settled c)(k \<mapsto> Resolved m)\<rparr>)
    \<and> (list_all (\<lambda>j. js_get m ''id'' \<noteq> Some (JNum (of_nat j))) (pending c)
         \<longrightarrow> client_message c m = c)
    \<and> (k \<in> set (pending c) \<and> timers c k = Some (d, meth) \<and> d \<le> now
         \<longrightarrow> client_timeout now c k
              = c\<lparr>timers := (timers c)(k := None),
                  pending := filter (\<lambda>j. j \<noteq> k) (pending c),
                  settled := (settled c)(k \<mapsto> Rejected (Timeout k meth))\<rparr>)
    \<and> (k \<in> set (pending c) \<and> timers c k = Some (d, meth) \<and> d \<le> now
           \<and> js_get m ''id'' = Some (JNum (of_nat k))
         \<longrightarrow> client_message (client_timeout now c k) m = client_timeout now c k)
    \<and> (timers c k = Some (d, meth) \<and> now < d \<longrightarrow> client_timeout now c k = c)
    \<and> pending (client_exit c code) = []
    \<and> (k \<in> set (pending c)
         \<longrightarrow> settled (client_exit c code) k = Some (Rejected (ServerExited k code)))
    \<and> (k \<notin> set (pending c) \<longrightarrow> settled (client_exit c code) k = settled c k)"
proof (intro conjI impI)
  show "nextId new_client = 1" "client_ok new_client"
    by (rule client_ok_new)+
  show "fst (client_call now c method params) = nextId c"
    "nextId (snd (client_call now c method params)) = nextId c + 1"
    "pending (snd (client_call now c method params)) = pending c @ [nextId c]"
    "timers (snd (client_call now c method params)) (nextId c) = Some (now + REQUEST_TIMEOUT_MS, method)"
    "client_ok (snd (client_call now c method params))"
    by (rule client_call_props [OF assms])+
  show "nextId (client_message c m) = nextId c" "nextId (client_timeout now c k) = nextId c"
    "nextId (client_exit c code) = nextId c"
    by (rule nextId_events)+
  show "client_ok (client_message c m)"
    by (rule client_ok_message [OF assms])
  show "client_ok (client_timeout now c k)"
    by (rule client_ok_timeout [OF assms])
  show "client_ok (client_exit c code)"
    by (rule client_ok_exit [OF assms])
  show "client_data parse c chunk
          = (case parse (trim l) of None \<Rightarrow> c | Some message \<Rightarrow> client_message c message)
              \<lparr>stdoutBuffer := rest\<rparr>"
    if "split_line (stdoutBuffer c @ chunk) = Some (l, rest) \<and> trim l \<noteq> [] \<and> split_line rest = None"
    using that by (rule client_data_one)
  show "client_message c m
          = c\<lparr>pending := filter (\<lambda>j. j \<noteq> k) (pending c),
              timers := (timers c)(k := None),
              settled := (settled c)(k \<mapsto> Resolved m)\<rparr>"
    if "k \<in> set (pending c) \<and> js_get m ''id'' = Some (JNum (of_nat k))"
    using that by (intro client_message_matched [OF assms]) simp_all
  show "client_message c m = c"
    if "list_all (\<lambda>j. js_get m ''id'' \<noteq> Some (JNum (of_nat j))) (pending c)"
    using that by (rule client_message_unmatched)
  show "client_timeout now c k
          = c\<lparr>timers := (timers c)(k := None),
              pending := filter (\<lambda>j. j \<noteq> k) (pending c),
              settled := (settled c)(k \<mapsto> Rejected (Timeout k meth))\<rparr>"
    if "k \<in> set (pending c) \<and> timers c k = Some (d, meth) \<and> d \<le> now"
    using that by (intro client_timeout_fires [OF assms, where d = d]) simp_all
  show "client_message (client_timeout now c k) m = client_timeout now c k"
    if "k \<in> set (pending c) \<and> timers c k = Some (d, meth) \<and> d \<le> now
           \<and> js_get m ''id'' = Some (JNum (of_nat k))"
    using that by (intro late_response_dropped [OF assms, where d = d and meth = meth]) simp_all
  show "client_timeout now c k = c" if "timers c k = Some (d, meth) \<and> now < d"
    using that by (intro client_timeout_early [where d = d and meth = meth]) simp_all
  show "pending (client_exit c code) = []"
    by (rule client_exit_rejects(1) [OF assms])
  show "settled (client_exit c code) k = Some (Rejected (ServerExited k code))"
    if "k \<in> set (pending c)"
    using that by (rule client_exit_rejects(2) [OF assms])
  show "settled (client_exit c code) k = settled c k" if "k \<notin> set (pending c)"
    using that by (rule client_exit_rejects(3) [OF assms])
qed

theorem C8_client_correlation_witness:
  "fst (client_call 0 new_client (ascii ''initialize'') (JObj [])) = 1
   \<and> fst (client_call 5 (snd (client_call 0 new_client (ascii ''initialize'') (JObj [])))
            (ascii ''tools/list'') (JObj [])) = 2
   \<and> pending example_client = [1, 2]
   \<and> pending (client_message example_client (JObj [(ascii ''id'', JNum 2), (ascii ''result'', JObj [])])) = [1]
   \<and> settled (client_message example_client (JObj [(ascii ''id'', JNum 2), (ascii ''result'', JObj [])])) 2
       = Some (Resolved (JObj [(ascii ''id'', JNum 2), (ascii ''result'', JObj [])]))
   \<and> client_message example_client (JObj [(ascii ''id'', JNum 9), (ascii ''result'', JObj [])]) = example_client
   \<and> client_timeout 7999 example_client 1 = example_client
   \<and> pending (client_timeout 8000 example_client 1) = [2]
   \<and> settled (client_timeout 8000 example_client 1) 1 = Some (Rejected (Timeout 1 (ascii ''initialize'')))
   \<and> client_message (client_timeout 8000 example_client 1) (JObj [(ascii ''id'', JNum 1), (ascii ''result'', JObj [])])
       = client_timeout 8000 example_client 1
   \<and> pending (client_exit example_client (Some 1)) = []
   \<and> settled (client_exit example_client (Some 1)) 1 = Some (Rejected (ServerExited 1 (Some 1)))
   \<and> settled (client_exit example_client (Some 1)) 2 = Some (Rejected (ServerExited 2 (Some 1)))"
proof -
  let ?c1 = "snd (client_call 0 new_client (ascii ''initialize'') (JObj []))"
  let ?m1 = "JObj [(ascii ''id'', JNum 1), (ascii ''result'', JObj [])]"
  let ?m2 = "JObj [(ascii ''id'', JNum 2), (ascii ''result'', JObj [])]"
  let ?m9 = "JObj [(ascii ''id'', JNum 9), (ascii ''result'', JObj [])]"
  note n = C8_client_correlation [OF client_ok_new(1), of 0 "ascii ''initialize''" "JObj []"]
  have ok1: "client_ok ?c1"
    by (rule n [THEN conjunct2, THEN conjunct2, THEN conjunct2, THEN conjunct2, THEN conjunct2, THEN conjunct2, THEN conjunct1])
  have id1: "fst (client_call 0 new_client (ascii ''initialize'') (JObj [])) = 1"
    using n [THEN conjunct2, THEN conjunct2, THEN conjunct1] client_ok_new(2) by simp
  have nx1: "nextId ?c1 = 2"
    using n [THEN conjunct2, THEN conjunct2, THEN conjunct2, THEN conjunct1] client_ok_new(2) by simp
  have p1: "pending ?c1 = [1]"
    using n [THEN conjunct2, THEN conjunct2, THEN conjunct2, THEN conjunct2, THEN conjunct1] client_ok_new(2) by (simp add: new_client_def)
  have t1: "timers ?c1 1 = Some (8000, (ascii ''initialize''))"
    using n [THEN conjunct2, THEN conjunct2, THEN conjunct2, THEN conjunct2, THEN conjunct2, THEN conjunct1] client_ok_new(2) by (simp add: REQUEST_TIMEOUT_MS_def)
  note s = C8_client_correlation [OF ok1, of 5 "ascii ''tools/list''" "JObj []"]
  have ok: "client_ok example_client"
    unfolding example_client_def by (rule s [THEN conjunct2, THEN conjunct2, THEN conjunct2, THEN conjunct2, THEN conjunct2, THEN conjunct2, THEN conjunct1])
  have id2: "fst (client_call 5 ?c1 (ascii ''tools/list'') (JObj [])) = 2"
    using s [THEN conjunct2, THEN conjunct2, THEN conjunct1] nx1 by simp
  have p: "pending example_client = [1, 2]"
    unfolding example_client_def using s [THEN conjunct2, THEN conjunct2, THEN conjunct2, THEN conjunct2, THEN conjunct1] nx1 p1 by simp
  have t: "timers example_client 1 = Some (8000, (ascii ''initialize''))"
    by (simp add: example_client_def client_call_def Let_def new_client_def REQUEST_TIMEOUT_MS_def)
  have j2: "2 \<in> set (pending example_client)
              \<and> js_get ?m2 ''id'' = Some (JNum (of_nat 2))"
    using p by simp
  have j9: "list_all (\<lambda>j. js_get ?m9 ''id'' \<noteq> Some (JNum (of_nat j))) (pending example_client)"
    using p by simp
  have early: "timers example_client 1 = Some (8000, (ascii ''initialize'')) \<and> (7999::nat) < 8000"
    using t by simp
  have due: "1 \<in> set (pending example_client) \<and> timers example_client 1 = Some (8000, (ascii ''initialize''))
               \<and> (8000::nat) \<le> 8000"
    using p t by simp
  have late: "1 \<in> set (pending example_client) \<and> timers example_client 1 = Some (8000, (ascii ''initialize''))
               \<and> (8000::nat) \<le> 8000 \<and> js_get ?m1 ''id'' = Some (JNum (of_nat 1))"
    using p t by simp
  have in1: "1 \<in> set (pending example_client)" and in2: "2 \<in> set (pending example_client)"
    using p by simp_all
  have r2: "client_message example_client ?m2
              = example_client\<lparr>pending := filter (\<lambda>j. j \<noteq> 2) (pending example_client),
                  timers := (timers example_client)(2 := None),
                  settled := (settled example_client)(2 \<mapsto> Resolved ?m2)\<rparr>"
    by (rule C8_client_correlation [OF ok, where k = 2 and m = ?m2, THEN conjunct2, THEN conjunct2, THEN conjunct2, THEN conjunct2, THEN conjunct2, THEN conjunct2, THEN conjunct2, THEN conjunct2, THEN conjunct2, THEN conjunct2, THEN conjunct2, THEN conjunct2, THEN conjunct2, THEN conjunct2, THEN conjunct1, THEN mp, OF j2])
  have r9: "client_message example_client ?m9 = example_client"
    by (rule C8_client_correlation [OF ok, where m = ?m9, THEN conjunct2, THEN conjunct2, THEN conjunct2, THEN conjunct2, THEN conjunct2, THEN conjunct2, THEN conjunct2, THEN conjunct2, THEN conjunct2, THEN conjunct2, THEN conjunct2, THEN conjunct2, THEN conjunct2, THEN conjunct2, THEN conjunct2, THEN conjunct1, THEN mp, OF j9])
  have re: "client_timeout 7999 example_client 1 = example_client"
    by (rule C8_client_correlation [OF ok, where k = 1 and now = 7999 and d = 8000
               and meth = "ascii ''initialize''", THEN conjunct2, THEN conjunct2, THEN conjunct2, THEN conjunct2, THEN conjunct2, THEN conjunct2, THEN conjunct2, THEN conjunct2, THEN conjunct2, THEN conjunct2, THEN conjunct2, THEN conjunct2, THEN conjunct2, THEN conjunct2, THEN conjunct2, THEN conjunct2, THEN conjunct2, THEN conjunct2, THEN conjunct1, THEN mp, OF early])
  have rf: "client_timeout 8000 example_client 1
              = example_client\<lparr>timers := (timers example_client)(1 := None),
                  pending := filter (\<lambda>j. j \<noteq> 1) (pending example_client),
                  settled := (settled example_client)(1 \<mapsto> Rejected (Timeout 1 (ascii ''initialize'')))\<rparr>"
    by (rule C8_client_correlation [OF ok, where k = 1 and now = 8000 and d = 8000
               and meth = "ascii ''initialize''", THEN conjunct2, THEN conjunct2, THEN conjunct2, THEN conjunct2, THEN conjunct2, THEN conjunct2, THEN conjunct2, THEN conjunct2, THEN conjunct2, THEN conjunct2, THEN conjunct2, THEN conjunct2, THEN conjunct2, THEN conjunct2, THEN conjunct2, THEN conjunct2, THEN conjunct1, THEN mp, OF due])
  have rl: "client_message (client_timeout 8000 example_client 1) ?m1
              = client_timeout 8000 example_client 1"
    by (rule C8_client_correlation [OF ok, where k = 1 and now = 8000 and d = 8000
               and meth = "ascii ''initialize''" and m = ?m1, THEN conjunct2, THEN conjunct2, THEN conjunct2, THEN conjunct2, THEN conjunct2, THEN conjunct2, THEN conjunct2, THEN conjunct2, THEN conjunct2, THEN conjunct2, THEN conjunct2, THEN conjunct2, THEN conjunct2, THEN conjunct2, THEN conjunct2, THEN conjunct2, THEN conjunct2, THEN conjunct1, THEN mp, OF late])
  have rx0: "pending (client_exit example_client (Some 1)) = []"
    by (rule C8_client_correlation [OF ok, where code = "Some 1", THEN conjunct2, THEN conjunct2, THEN conjunct2, THEN conjunct2, THEN conjunct2, THEN conjunct2, THEN conjunct2, THEN conjunct2, THEN conjunct2, THEN conjunct2, THEN conjunct2, THEN conjunct2, THEN conjunct2, THEN conjunct2, THEN conjunct2, THEN conjunct2, THEN conjunct2, THEN conjunct2, THEN conjunct2, THEN conjunct1])
  have rx1: "settled (client_exit example_client (Some 1)) 1 = Some (Rejected (ServerExited 1 (Some 1)))"
    by (rule C8_client_correlation [OF ok, where k = 1 and code = "Some 1", THEN conjunct2, THEN conjunct2, THEN conjunct2, THEN conjunct2, THEN conjunct2, THEN conjunct2, THEN conjunct2, THEN conjunct2, THEN conjunct2, THEN conjunct2, THEN conjunct2, THEN conjunct2, THEN conjunct2, THEN conjunct2, THEN conjunct2, THEN conjunct2, THEN conjunct2, THEN conjunct2, THEN conjunct2, THEN conjunct2, THEN conjunct1, THEN mp, OF in1])
  have rx2: "settled (client_exit example_client (Some 1)) 2 = Some (Rejected (ServerExited 2 (Some 1)))"
    by (rule C8_client_correlation [OF ok, where k = 2 and code = "Some 1", THEN conjunct2, THEN conjunct2, THEN conjunct2, THEN conjunct2, THEN conjunct2, THEN conjunct2, THEN conjunct2, THEN conjunct2, THEN conjunct2, THEN conjunct2, THEN conjunct2, THEN conjunct2, THEN conjunct2, THEN conjunct2, THEN conjunct2, THEN conjunct2, THEN conjunct2, THEN conjunct2, THEN conjunct2, THEN conjunct2, THEN conjunct1, THEN mp, OF in2])
  from id1 id2 p r9 re rl rx0 rx1 rx2 r2 rf show ?thesis
    by simp
qed


end
